theory Spec2Isabelle
  imports Main "HOL-Library.Word"
begin

unbundle bit_operations_syntax

section \<open>UEFI PI firmware probing (hw/arc/efi.c)\<close>

text \<open>
  A shallow embedding of \<^verbatim>\<open>hw/arc/efi.c\<close>. The C code overlays structs on a byte
  buffer and walks it with raw pointers. Here a pointer is a 64-bit address, the loaded
  blob is a byte list placed at a base address, and every dereference is a read of
  single bytes: a read outside the blob is the fault \<open>OutOfBounds\<close> (undefined
  behaviour in C), never a silent value. Multi-byte fields are little-endian, and the
  struct layouts are those of an LP64 host with natural alignment:
  \<^verbatim>\<open>sizeof(struct fv_hdr) = 56\<close>, \<^verbatim>\<open>sizeof(struct file_hdr) = 24\<close>,
  \<^verbatim>\<open>sizeof(struct sect_hdr) = 4\<close>, \<^verbatim>\<open>sizeof(struct te_hdr) = 32\<close>.
\<close>

subsection \<open>Machine types and constants\<close>

type_synonym u8 = "8 word"
type_synonym u16 = "16 word"
type_synonym u32 = "32 word"
type_synonym u64 = "64 word"
type_synonym addr = "64 word"

definition EFI_INVALID_ENTRY_POINT :: u32 where
  "EFI_INVALID_ENTRY_POINT = 0xffffffff"

definition SECURITY_CORE :: u8 where
  "SECURITY_CORE = 0x03"

definition SECTION_TE :: u8 where
  "SECTION_TE = 0x12"

definition RESET_VECTOR_SIZE :: nat where
  "RESET_VECTOR_SIZE = 16"

text \<open>\<^verbatim>\<open>*(uint32_t *) "_FVH"\<close> and \<^verbatim>\<open>*(uint16_t *) "VZ"\<close>, read little-endian.\<close>

definition le16 :: "u8 \<Rightarrow> u8 \<Rightarrow> u16" where
  "le16 b0 b1 = ucast b0 OR push_bit 8 (ucast b1)"

definition le32 :: "u8 \<Rightarrow> u8 \<Rightarrow> u8 \<Rightarrow> u8 \<Rightarrow> u32" where
  "le32 b0 b1 b2 b3 =
     ucast b0 OR push_bit 8 (ucast b1) OR push_bit 16 (ucast b2) OR push_bit 24 (ucast b3)"

definition le64 :: "u8 list \<Rightarrow> u64" where
  "le64 bs = foldr (\<lambda>b acc. ucast b OR push_bit 8 acc) (take 8 bs) 0"

definition FV_SIGNATURE :: u32 where
  "FV_SIGNATURE = le32 0x5f 0x46 0x56 0x48"

definition TE_SIGNATURE :: u16 where
  "TE_SIGNATURE = le16 0x56 0x5a"

subsection \<open>Size decoding and alignment\<close>

text \<open>
  \<^verbatim>\<open>return (uint32_t) (size[0] | size[1] << 8 | size[2] << 16) & 0x0fff;\<close>
\<close>

definition get_size :: "u8 \<Rightarrow> u8 \<Rightarrow> u8 \<Rightarrow> u32" where
  "get_size s0 s1 s2 =
     (ucast s0 OR push_bit 8 (ucast s1) OR push_bit 16 (ucast s2)) AND 0x0fff"

text \<open>\<^verbatim>\<open>(uint8_t *) (((uint64_t) ptr + 3) & ~3ULL)\<close> and the same with 7.\<close>

definition align4_ptr :: "addr \<Rightarrow> addr" where
  "align4_ptr ptr = (ptr + 3) AND NOT 3"

definition align8_ptr :: "addr \<Rightarrow> addr" where
  "align8_ptr ptr = (ptr + 7) AND NOT 7"

subsection \<open>The loaded blob and its reads\<close>

text \<open>
  The blob is the buffer \<^verbatim>\<open>g_malloc(fsize)\<close> returned, filled by \<^verbatim>\<open>read\<close>: its
  address and its bytes. A byte at address \<open>a\<close> belongs to it when \<open>a - base\<close>, computed
  in 64 bits, is below its length.
\<close>

record buffer =
  base :: addr
  bytes :: "u8 list"

datatype fault = OutOfBounds addr

definition rd8 :: "buffer \<Rightarrow> addr \<Rightarrow> fault + u8" where
  "rd8 m a =
     (if unat (a - base m) < length (bytes m) then Inr (bytes m ! unat (a - base m))
      else Inl (OutOfBounds a))"

definition bnd :: "fault + 'a \<Rightarrow> ('a \<Rightarrow> fault + 'b) \<Rightarrow> fault + 'b" where
  "bnd x f = (case x of Inl e \<Rightarrow> Inl e | Inr v \<Rightarrow> f v)"

definition rd16 :: "buffer \<Rightarrow> addr \<Rightarrow> fault + u16" where
  "rd16 m a = bnd (rd8 m a) (\<lambda>b0. bnd (rd8 m (a + 1)) (\<lambda>b1. Inr (le16 b0 b1)))"

definition rd32 :: "buffer \<Rightarrow> addr \<Rightarrow> fault + u32" where
  "rd32 m a =
     bnd (rd8 m a) (\<lambda>b0. bnd (rd8 m (a + 1)) (\<lambda>b1.
     bnd (rd8 m (a + 2)) (\<lambda>b2. bnd (rd8 m (a + 3)) (\<lambda>b3. Inr (le32 b0 b1 b2 b3)))))"

text \<open>\<^verbatim>\<open>get_size(p)\<close> for a pointer \<open>p\<close> to a \<^verbatim>\<open>uint8_t size[3]\<close> field.\<close>

definition rd_size :: "buffer \<Rightarrow> addr \<Rightarrow> fault + u32" where
  "rd_size m a =
     bnd (rd8 m a) (\<lambda>s0. bnd (rd8 m (a + 1)) (\<lambda>s1.
     bnd (rd8 m (a + 2)) (\<lambda>s2. Inr (get_size s0 s1 s2))))"

text \<open>
  Field offsets: \<^verbatim>\<open>file_hdr.type\<close> at 18, \<^verbatim>\<open>file_hdr.size\<close> at 20,
  \<^verbatim>\<open>sect_hdr.size\<close> at 0, \<^verbatim>\<open>sect_hdr.type\<close> at 3, \<^verbatim>\<open>te_hdr.sign\<close> at 0,
  \<^verbatim>\<open>te_hdr.entry_point\<close> at 8.
\<close>

definition sizeof_file_hdr :: addr where
  "sizeof_file_hdr = 24"

definition sizeof_sect_hdr :: addr where
  "sizeof_sect_hdr = 4"

definition file_type :: "buffer \<Rightarrow> addr \<Rightarrow> fault + u8" where
  "file_type m file = rd8 m (file + 18)"

definition file_size :: "buffer \<Rightarrow> addr \<Rightarrow> fault + u32" where
  "file_size m file = rd_size m (file + 20)"

definition sect_size :: "buffer \<Rightarrow> addr \<Rightarrow> fault + u32" where
  "sect_size m sect = rd_size m sect"

definition sect_type :: "buffer \<Rightarrow> addr \<Rightarrow> fault + u8" where
  "sect_type m sect = rd8 m (sect + 3)"

definition te_sign :: "buffer \<Rightarrow> addr \<Rightarrow> fault + u16" where
  "te_sign m te = rd16 m te"

definition te_entry_point :: "buffer \<Rightarrow> addr \<Rightarrow> fault + u32" where
  "te_entry_point m te = rd32 m (te + 8)"

subsection \<open>Observable steps\<close>

text \<open>
  What a run does besides returning: the system calls it makes, the headers it decodes
  (with their addresses) and the call of the ROM sink \<^verbatim>\<open>rom_add_blob_fixed\<close>.
\<close>

datatype event =
    EvOpen string
  | EvSeekSet
  | EvSeekEnd
  | EvRead nat
  | EvMalloc nat
  | EvFileHdr addr
  | EvSectHdr addr
  | EvTeHdr addr
  | EvRomAddBlobFixed string "u8 list" nat nat
  | EvFree
  | EvClose

text \<open>
  A run that returns gives its events and either the returned value or the fault it ran
  into; a run that loops forever is \<open>None\<close>.
\<close>

type_synonym outcome = "event list \<times> (fault + u32)"

subsection \<open>The section scan\<close>

text \<open>
  The loop of \<^verbatim>\<open>get_sec_entry_point\<close>:
  \<^verbatim>\<open>
  while (ptr < end) {
      struct sect_hdr *sect = (struct sect_hdr *) ptr;
      if (sect->type != SECTION_TE) {
          ptr += get_size(sect->size); ptr = align4_ptr(ptr); continue;
      }
      te = (struct te_hdr *) (ptr + sizeof(*sect));
      if (!check_te_sign(te)) return EFI_INVALID_ENTRY_POINT;
      return te->entry_point;
  }
  return EFI_INVALID_ENTRY_POINT;
  \<close>
\<close>

definition check_te_sign :: "u16 \<Rightarrow> bool" where
  "check_te_sign s = (s = TE_SIGNATURE)"

partial_function (option) sect_loop ::
  "buffer \<Rightarrow> addr \<Rightarrow> addr \<Rightarrow> event list \<Rightarrow> outcome option" where
  "sect_loop m end ptr tr =
     (if ptr < end then
        (case sect_type m ptr of
           Inl f \<Rightarrow> Some (tr @ [EvSectHdr ptr], Inl f)
         | Inr ty \<Rightarrow>
             if ty \<noteq> SECTION_TE then
               (case sect_size m ptr of
                  Inl f \<Rightarrow> Some (tr @ [EvSectHdr ptr], Inl f)
                | Inr sz \<Rightarrow>
                    sect_loop m end (align4_ptr (ptr + ucast sz)) (tr @ [EvSectHdr ptr]))
             else
               (case te_sign m (ptr + sizeof_sect_hdr) of
                  Inl f \<Rightarrow>
                    Some (tr @ [EvSectHdr ptr, EvTeHdr (ptr + sizeof_sect_hdr)], Inl f)
                | Inr s \<Rightarrow>
                    if \<not> check_te_sign s then
                      Some (tr @ [EvSectHdr ptr, EvTeHdr (ptr + sizeof_sect_hdr)],
                            Inr EFI_INVALID_ENTRY_POINT)
                    else
                      (case te_entry_point m (ptr + sizeof_sect_hdr) of
                         Inl f \<Rightarrow>
                           Some (tr @ [EvSectHdr ptr, EvTeHdr (ptr + sizeof_sect_hdr)], Inl f)
                       | Inr e \<Rightarrow>
                           Some (tr @ [EvSectHdr ptr, EvTeHdr (ptr + sizeof_sect_hdr)],
                                 Inr e))))
      else Some (tr, Inr EFI_INVALID_ENTRY_POINT))"

declare sect_loop.simps [code]

text \<open>
  \<^verbatim>\<open>
  uint8_t *ptr = (uint8_t *) file + sizeof(*file);
  uint8_t *end = ptr + get_size(file->size);
  ptr = align4_ptr(ptr);
  \<close>
\<close>

definition get_sec_entry_point :: "buffer \<Rightarrow> addr \<Rightarrow> event list \<Rightarrow> outcome option" where
  "get_sec_entry_point m file tr =
     (case file_size m file of
        Inl f \<Rightarrow> Some (tr, Inl f)
      | Inr sz \<Rightarrow>
          sect_loop m (file + sizeof_file_hdr + ucast sz) (align4_ptr (file + sizeof_file_hdr)) tr)"

subsection \<open>The file scan\<close>

text \<open>
  The loop of \<^verbatim>\<open>get_entry_point\<close>:
  \<^verbatim>\<open>
  while (ptr < end) {
      struct file_hdr *file = (struct file_hdr *) ptr;
      if (file->type == SECURITY_CORE) return get_sec_entry_point(file);
      ptr += get_size(file->size);
      ptr = align8_ptr(ptr);
  }
  return EFI_INVALID_ENTRY_POINT;
  \<close>
\<close>

partial_function (option) file_loop ::
  "buffer \<Rightarrow> addr \<Rightarrow> addr \<Rightarrow> event list \<Rightarrow> outcome option" where
  "file_loop m end ptr tr =
     (if ptr < end then
        (case file_type m ptr of
           Inl f \<Rightarrow> Some (tr @ [EvFileHdr ptr], Inl f)
         | Inr ty \<Rightarrow>
             if ty = SECURITY_CORE then get_sec_entry_point m ptr (tr @ [EvFileHdr ptr])
             else
               (case file_size m ptr of
                  Inl f \<Rightarrow> Some (tr @ [EvFileHdr ptr], Inl f)
                | Inr sz \<Rightarrow>
                    file_loop m end (align8_ptr (ptr + ucast sz)) (tr @ [EvFileHdr ptr])))
      else Some (tr, Inr EFI_INVALID_ENTRY_POINT))"

declare file_loop.simps [code]

text \<open>
  The volume header, as \<^verbatim>\<open>read(fd, &fv, sizeof(fv))\<close> fills the local
  \<^verbatim>\<open>struct fv_hdr\<close>: fields at offsets 0, 16, 32, 40, 44 and 48 of its 56 bytes.
\<close>

record fv_hdr =
  reset_vector :: "u8 list"
  guid :: "u8 list"
  fv_len :: u64
  sign :: u32
  attrs :: u32
  hdr_len :: u16

definition sizeof_fv_hdr :: nat where
  "sizeof_fv_hdr = 56"

definition decode_fv_hdr :: "u8 list \<Rightarrow> fv_hdr" where
  "decode_fv_hdr bs =
     \<lparr> reset_vector = take RESET_VECTOR_SIZE bs,
       guid = take 16 (drop 16 bs),
       fv_len = le64 (drop 32 bs),
       sign = le32 (bs ! 40) (bs ! 41) (bs ! 42) (bs ! 43),
       attrs = le32 (bs ! 44) (bs ! 45) (bs ! 46) (bs ! 47),
       hdr_len = le16 (bs ! 48) (bs ! 49) \<rparr>"

text \<open>
  \<^verbatim>\<open>
  uint8_t *ptr = blob + fv_hdr->hdr_len;
  uint8_t *end = ptr + fv_hdr->fv_len;
  ptr = align8_ptr(ptr);
  \<close>
\<close>

definition get_entry_point :: "buffer \<Rightarrow> fv_hdr \<Rightarrow> event list \<Rightarrow> outcome option" where
  "get_entry_point m fv tr =
     file_loop m (base m + ucast (hdr_len fv) + fv_len fv)
       (align8_ptr (base m + ucast (hdr_len fv))) tr"

subsection \<open>The probe\<close>

text \<open>
  \<^verbatim>\<open>for (i = 0; i < RESET_VECTOR_SIZE; ++i) if (buf[i] != 0) break;
  return i == RESET_VECTOR_SIZE;\<close>
\<close>

function reset_vector_scan :: "u8 list \<Rightarrow> nat \<Rightarrow> nat" where
  "reset_vector_scan buf i =
     (if i < RESET_VECTOR_SIZE then
        (if buf ! i \<noteq> 0 then i else reset_vector_scan buf (i + 1))
      else i)"
  by pat_completeness auto
termination
  by (relation "measure (\<lambda>(buf, i). RESET_VECTOR_SIZE - i)") auto

declare reset_vector_scan.simps [simp del]

definition reset_vector_empty :: "u8 list \<Rightarrow> bool" where
  "reset_vector_empty buf = (reset_vector_scan buf 0 = RESET_VECTOR_SIZE)"

text \<open>
  The environment of a call: which paths \<^verbatim>\<open>open\<close> finds and with what contents, how
  each of the two \<^verbatim>\<open>read\<close> calls behaves (all the bytes asked for that the file has,
  at most so many, or an error), and the address \<^verbatim>\<open>g_malloc\<close> returns. Both reads
  start at offset 0, after \<^verbatim>\<open>lseek(fd, 0, SEEK_SET)\<close>.
\<close>

datatype rd = RdAll | RdAtMost nat | RdError

record env =
  fs :: "string \<Rightarrow> u8 list option"
  read1 :: rd
  read2 :: rd
  heap :: addr

fun sys_read :: "rd \<Rightarrow> u8 list \<Rightarrow> nat \<Rightarrow> int \<times> u8 list" where
  "sys_read RdAll data n = (int (length (take n data)), take n data)"
| "sys_read (RdAtMost k) data n = (int (length (take (min n k) data)), take (min n k) data)"
| "sys_read RdError data n = (- 1, [])"

text \<open>
  \<^verbatim>\<open>load_firmware\<close>: \<^verbatim>\<open>g_malloc(0)\<close> returns \<^verbatim>\<open>NULL\<close>; otherwise the whole file is
  read, scanned, and then handed to \<^verbatim>\<open>rom_add_blob_fixed("uefi", blob, fsize, 0)\<close>.
  Left out: \<^verbatim>\<open>g_malloc\<close> ending the process when memory runs out, a failing
  \<^verbatim>\<open>lseek\<close> (the file is a regular file, and \<^verbatim>\<open>fsize\<close> is its length), and the
  messages written to \<^verbatim>\<open>stderr\<close>.
\<close>

definition load_firmware :: "env \<Rightarrow> u8 list \<Rightarrow> nat \<Rightarrow> fv_hdr \<Rightarrow> outcome option" where
  "load_firmware w data fsize fv =
     (if fsize = 0 then Some ([EvMalloc fsize], Inr EFI_INVALID_ENTRY_POINT)
      else
        (case sys_read (read2 w) data fsize of
           (n, blob) \<Rightarrow>
             if n \<noteq> int fsize then
               Some ([EvMalloc fsize, EvSeekSet, EvRead fsize, EvFree],
                     Inr EFI_INVALID_ENTRY_POINT)
             else
               (case get_entry_point \<lparr> base = heap w, bytes = blob \<rparr> fv
                       [EvMalloc fsize, EvSeekSet, EvRead fsize] of
                  None \<Rightarrow> None
                | Some (tr, Inl f) \<Rightarrow> Some (tr, Inl f)
                | Some (tr, Inr entry) \<Rightarrow>
                    Some (tr @ [EvRomAddBlobFixed ''uefi'' blob fsize 0, EvFree],
                          Inr entry))))"

text \<open>
  \<^verbatim>\<open>efi_probe_firmware\<close>; \<^verbatim>\<open>target_ulong\<close> is 32 bits wide on the ARC target. The
  path is \<open>None\<close> for a \<^verbatim>\<open>NULL\<close> pointer.
\<close>

definition efi_probe_firmware :: "env \<Rightarrow> string option \<Rightarrow> outcome option" where
  "efi_probe_firmware w file =
     (case file of
        None \<Rightarrow> Some ([], Inr EFI_INVALID_ENTRY_POINT)
      | Some path \<Rightarrow>
          (case fs w path of
             None \<Rightarrow> Some ([EvOpen path], Inr EFI_INVALID_ENTRY_POINT)
           | Some data \<Rightarrow>
               (case sys_read (read1 w) data sizeof_fv_hdr of
                  (n, hdr) \<Rightarrow>
                    if n \<noteq> int sizeof_fv_hdr then
                      Some ([EvOpen path, EvSeekSet, EvRead sizeof_fv_hdr, EvClose], Inr 0)
                    else if sign (decode_fv_hdr hdr) \<noteq> FV_SIGNATURE then
                      Some ([EvOpen path, EvSeekSet, EvRead sizeof_fv_hdr, EvClose], Inr 0)
                    else if \<not> reset_vector_empty (reset_vector (decode_fv_hdr hdr)) then
                      Some ([EvOpen path, EvSeekSet, EvRead sizeof_fv_hdr, EvClose], Inr 0)
                    else
                      (case load_firmware w data (length data) (decode_fv_hdr hdr) of
                         None \<Rightarrow> None
                       | Some (tr, Inl f) \<Rightarrow>
                           Some ([EvOpen path, EvSeekSet, EvRead sizeof_fv_hdr, EvSeekEnd] @ tr,
                                 Inl f)
                       | Some (tr, Inr entry) \<Rightarrow>
                           Some ([EvOpen path, EvSeekSet, EvRead sizeof_fv_hdr, EvSeekEnd] @ tr
                                   @ [EvClose],
                                 Inr entry)))))"

text \<open>The calls of the ROM sink in a run, in order: name, data, size, load address.\<close>

fun rom_calls :: "event list \<Rightarrow> (string \<times> u8 list \<times> nat \<times> nat) list" where
  "rom_calls [] = []"
| "rom_calls (EvRomAddBlobFixed name blob len a # es) = (name, blob, len, a) # rom_calls es"
| "rom_calls (e # es) = rom_calls es"

subsection \<open>Layout of a volume\<close>

text \<open>
  The layout of an image, in offsets from its first byte and independent of the scanning
  code. \<open>align_up k n\<close> is the next multiple of \<open>k\<close> from \<open>n\<close> on. \<open>raw_size_at\<close> is
  the size a header carries: the three bytes of its size field, little-endian, all 24
  bits. \<open>size_at\<close> is what the size decoder of the code makes of the same three bytes.
\<close>

definition align_up :: "nat \<Rightarrow> nat \<Rightarrow> nat" where
  "align_up k n = (n + (k - 1)) div k * k"

definition le24 :: "u8 \<Rightarrow> u8 \<Rightarrow> u8 \<Rightarrow> u32" where
  "le24 b0 b1 b2 = ucast b0 OR push_bit 8 (ucast b1) OR push_bit 16 (ucast b2)"

definition raw_size_at :: "u8 list \<Rightarrow> nat \<Rightarrow> nat" where
  "raw_size_at bs i = unat (le24 (bs ! i) (bs ! (i + 1)) (bs ! (i + 2)))"

definition size_at :: "u8 list \<Rightarrow> nat \<Rightarrow> nat" where
  "size_at bs i = unat (get_size (bs ! i) (bs ! (i + 1)) (bs ! (i + 2)))"

text \<open>
  \<open>file_walk cap bs vend f xs g\<close>: the files at the offsets \<open>xs\<close>, the first of them
  at \<open>f\<close>, follow each other (each at the next multiple of 8 after the end of the one
  before), none is a Security-Core file, each holds at least its 24-byte header, is
  smaller than \<open>cap\<close> bytes and ends inside the volume, which ends at \<open>vend\<close>; the
  file after the last of them is at \<open>g\<close>. With \<open>cap = 2 ^ 24\<close> the bound on the sizes
  says nothing: a size field holds 24 bits. \<open>sect_walk bs fend s xs t\<close> is the same for
  the sections of a file that ends at \<open>fend\<close>: alignment 4, each section holds at least
  its 4-byte header, none of them is a TE section, and there is no bound on the sizes.
\<close>

fun file_walk :: "nat \<Rightarrow> u8 list \<Rightarrow> nat \<Rightarrow> nat \<Rightarrow> nat list \<Rightarrow> nat \<Rightarrow> bool" where
  "file_walk cap bs vend f [] g = (f = g)"
| "file_walk cap bs vend f (x # xs) g =
     (x = f \<and> 24 \<le> raw_size_at bs (f + 20) \<and> raw_size_at bs (f + 20) < cap
      \<and> f + raw_size_at bs (f + 20) \<le> vend
      \<and> bs ! (f + 18) \<noteq> SECURITY_CORE
      \<and> file_walk cap bs vend (align_up 8 (f + raw_size_at bs (f + 20))) xs g)"

fun sect_walk :: "u8 list \<Rightarrow> nat \<Rightarrow> nat \<Rightarrow> nat list \<Rightarrow> nat \<Rightarrow> bool" where
  "sect_walk bs fend s [] t = (s = t)"
| "sect_walk bs fend s (x # xs) t =
     (x = s \<and> 4 \<le> raw_size_at bs s
      \<and> s + raw_size_at bs s \<le> fend
      \<and> bs ! (s + 3) \<noteq> SECTION_TE
      \<and> sect_walk bs fend (align_up 4 (s + raw_size_at bs s)) xs t)"

text \<open>
  \<open>vol_layout cap bs hl vl fls f scs s\<close>: the bytes \<open>bs\<close> hold a well-formed volume
  with header length \<open>hl\<close> and length \<open>vl\<close> (header included) that has a Security-Core
  file with a TE section. The volume lies in \<open>bs\<close>; the files \<open>fls\<close> before the first
  Security-Core file, at \<open>f\<close>, are laid out as above from the first multiple of 8 at or
  after \<open>hl\<close>, each smaller than \<open>cap\<close> bytes; the Security-Core file holds its
  24-byte header and lies in the volume; its sections \<open>scs\<close> before its first TE section,
  at \<open>s\<close>, are laid out as above from the end of its header; the TE section lies in the
  file and holds its 4-byte section header and a TE header of 32 bytes.
\<close>

definition vol_layout ::
  "nat \<Rightarrow> u8 list \<Rightarrow> nat \<Rightarrow> nat \<Rightarrow> nat list \<Rightarrow> nat \<Rightarrow> nat list \<Rightarrow> nat \<Rightarrow> bool" where
  "vol_layout cap bs hl vl fls f scs s \<longleftrightarrow>
     vl \<le> length bs
   \<and> file_walk cap bs vl (align_up 8 hl) fls f
   \<and> 24 \<le> raw_size_at bs (f + 20)
   \<and> f + raw_size_at bs (f + 20) \<le> vl
   \<and> bs ! (f + 18) = SECURITY_CORE
   \<and> sect_walk bs (f + raw_size_at bs (f + 20)) (align_up 4 (f + 24)) scs s
   \<and> 36 \<le> raw_size_at bs s
   \<and> s + raw_size_at bs s \<le> f + raw_size_at bs (f + 20)
   \<and> bs ! (s + 3) = SECTION_TE"

text \<open>
  A well-formed image: the file is at least a volume header long, the header has the
  signature \<open>_FVH\<close> and a zero reset vector, the volume it declares (\<open>hdr_len\<close>,
  \<open>fv_len\<close>) is laid out as above, and the TE header starts with \<open>VZ\<close>.
\<close>

definition wf_volume ::
  "nat \<Rightarrow> u8 list \<Rightarrow> nat list \<Rightarrow> nat \<Rightarrow> nat list \<Rightarrow> nat \<Rightarrow> bool" where
  "wf_volume cap data fls f scs s \<longleftrightarrow>
     sizeof_fv_hdr \<le> length data
   \<and> [data ! 40, data ! 41, data ! 42, data ! 43] = [0x5f, 0x46, 0x56, 0x48]
   \<and> take RESET_VECTOR_SIZE data = replicate RESET_VECTOR_SIZE 0
   \<and> vol_layout cap data (unat (hdr_len (decode_fv_hdr data)))
        (unat (fv_len (decode_fv_hdr data))) fls f scs s
   \<and> data ! (s + 4) = 0x56 \<and> data ! (s + 5) = 0x5a"

subsection \<open>Sample images\<close>

text \<open>
  Small images to run the probe on. A volume header with \<open>hdr_len = 56\<close> and the given
  two low bytes of \<open>fv_len\<close>, a file header with the given type and size, and a TE
  header (32 bytes) with the given four bytes of \<open>entry_point\<close>.
\<close>

definition sample_fv_hdr :: "u8 \<Rightarrow> u8 \<Rightarrow> u8 list" where
  "sample_fv_hdr l0 l1 =
     replicate 32 0 @ [l0, l1, 0, 0, 0, 0, 0, 0] @ [0x5f, 0x46, 0x56, 0x48]
     @ replicate 4 0 @ [56, 0] @ replicate 6 0"

definition sample_file_hdr :: "u8 \<Rightarrow> u8 \<Rightarrow> u8 list" where
  "sample_file_hdr ty sz = replicate 18 0 @ [ty, 0, sz, 0, 0, 0]"

definition sample_te_hdr :: "u8 \<Rightarrow> u8 \<Rightarrow> u8 \<Rightarrow> u8 \<Rightarrow> u8 list" where
  "sample_te_hdr e0 e1 e2 e3 = [0x56, 0x5a] @ replicate 6 0 @ [e0, e1, e2, e3] @ replicate 20 0"

text \<open>
  A volume of 164 bytes: a 29-byte file of type 2 at offset 56, then the Security-Core
  file at offset 88 (76 bytes) holding a 6-byte raw section at 112 and the TE section at
  120 (44 bytes: section header, TE header at 124, 8 bytes of image).
\<close>

definition sample_image :: "u8 \<Rightarrow> u8 \<Rightarrow> u8 \<Rightarrow> u8 \<Rightarrow> u8 list" where
  "sample_image e0 e1 e2 e3 =
     sample_fv_hdr 164 0
     @ sample_file_hdr 0x02 29 @ [1, 2, 3, 4, 5] @ replicate 3 0xff
     @ sample_file_hdr 0x03 76
     @ [6, 0, 0, 0x19] @ [7, 8] @ replicate 2 0
     @ [44, 0, 0, 0x12] @ sample_te_hdr e0 e1 e2 e3 @ replicate 8 0"

text \<open>
  A volume of 116 bytes whose only file is a Security-Core file of 60 bytes at offset 56:
  its header and a TE section of 36 bytes at offset 80, a section header and a TE header.
\<close>

definition small_image :: "u8 list" where
  "small_image =
     sample_fv_hdr 116 0 @ sample_file_hdr 0x03 60
     @ [36, 0, 0, 0x12] @ sample_te_hdr 0x78 0x56 0x34 0x12"

definition sample_env :: "u8 list \<Rightarrow> env" where
  "sample_env img =
     \<lparr> fs = (\<lambda>p. if p = ''fw.fd'' then Some img else None),
       read1 = RdAll, read2 = RdAll, heap = 0x7f0000001000 \<rparr>"

text \<open>A volume whose only file entry has type 0 and a size field of 0.\<close>

definition zero_size_image :: "u8 list" where
  "zero_size_image = sample_fv_hdr 80 0 @ replicate 24 0"

text \<open>
  A Security-Core file of 32 bytes at offset 56 (its payload is one 8-byte raw section at
  80), followed at offset 88 by the next file, of type 2 and 24 bytes.
\<close>

definition overshoot_image :: "u8 list" where
  "overshoot_image =
     sample_fv_hdr 112 0 @ sample_file_hdr 0x03 32 @ [8, 0, 0, 0x19] @ [0xaa, 0xbb, 0xcc, 0xdd]
     @ [24, 0, 0, 0] @ replicate 14 0 @ [0x02, 0, 24, 0, 0, 0]"

text \<open>
  A file cut off after 80 bytes: its volume header declares \<open>fv_len = 200\<close>, and only the
  first file entry (type 2, 24 bytes) is there.
\<close>

definition truncated_image :: "u8 list" where
  "truncated_image = sample_fv_hdr 200 0 @ sample_file_hdr 0x02 24"

text \<open>
  Files that are exactly one well-formed volume. The first has no Security-Core file: 80
  bytes, one file of type 2 and 24 bytes at offset 56. The second has no file at all: the
  56 bytes of the volume header. The third, of 88 bytes, has a Security-Core file of 32
  bytes at offset 56 with one 8-byte raw section at offset 80 and no TE section.
\<close>

definition no_sec_image :: "u8 list" where
  "no_sec_image = sample_fv_hdr 80 0 @ sample_file_hdr 0x02 24"

definition header_only_image :: "u8 list" where
  "header_only_image = sample_fv_hdr 56 0"

definition no_te_image :: "u8 list" where
  "no_te_image = sample_fv_hdr 88 0 @ sample_file_hdr 0x03 32 @ [8, 0, 0, 0x19] @ [1, 2, 3, 4]"

text \<open>
  A volume of 4252 bytes. Its first file, of type 2 at offset 56, is 4128 bytes long; the
  payload of that file holds, from offset 88 on, bytes that read as a Security-Core file
  with a TE section whose \<open>entry_point\<close> is \<open>0xDEADBEEF\<close>. The Security-Core file of
  the volume is at offset 4184, its TE section at 4208, with \<open>entry_point = 0x12345678\<close>.
\<close>

definition large_file_image :: "u8 list" where
  "large_file_image =
     sample_fv_hdr 0x9c 0x10
     @ (replicate 18 0 @ [0x02, 0, 0x20, 0x10, 0, 0])
     @ replicate 8 0
     @ sample_file_hdr 0x03 68 @ [44, 0, 0, 0x12] @ sample_te_hdr 0xef 0xbe 0xad 0xde
     @ replicate 8 0
     @ replicate 4028 0
     @ sample_file_hdr 0x03 68 @ [44, 0, 0, 0x12] @ sample_te_hdr 0x78 0x56 0x34 0x12
     @ replicate 8 0"

text \<open>
  A volume of 4152 bytes whose only file is a Security-Core file of exactly 4096 bytes at
  offset 56 (size field \<open>00 10 00\<close>). The file is filled by one TE section at offset 80,
  of 4072 bytes, with \<open>entry_point = 0x12345678\<close>.
\<close>

definition large_sec_image :: "u8 list" where
  "large_sec_image =
     sample_fv_hdr 0x38 0x10
     @ (replicate 18 0 @ [0x03, 0, 0x00, 0x10, 0, 0])
     @ [0xe8, 0x0f, 0, 0x12] @ sample_te_hdr 0x78 0x56 0x34 0x12
     @ replicate 4036 0"

text \<open>
  The same with a Security-Core file of 4164 bytes (size field \<open>44 10 00\<close>), filled by
  one TE section of 4140 bytes: a volume of 4220 bytes.
\<close>

definition big_sec_image :: "u8 list" where
  "big_sec_image =
     sample_fv_hdr 0x7c 0x10
     @ (replicate 18 0 @ [0x03, 0, 0x44, 0x10, 0, 0])
     @ [0x2c, 0x10, 0, 0x12] @ sample_te_hdr 0x78 0x56 0x34 0x12
     @ replicate 4104 0"

text \<open>
  A volume of 4276 bytes. Its first file, of type 2 at offset 56, is 4160 bytes long and
  is followed at offset 4216 by the Security-Core file (60 bytes) with its TE section at
  4240. The payload of the first file holds at offset 120 bytes that read as a file
  header of type 2 and size 4040, and at offset 4160 bytes that read as a file header of
  type 2 and size 104.
\<close>

definition astray_image :: "u8 list" where
  "astray_image =
     sample_fv_hdr 0xb4 0x10
     @ (replicate 18 0 @ [0x02, 0, 0x40, 0x10, 0, 0])
     @ replicate 40 0
     @ (replicate 18 0 @ [0x02, 0, 0xc8, 0x0f, 0, 0])
     @ replicate 4016 0
     @ sample_file_hdr 0x02 104
     @ replicate 32 0
     @ sample_file_hdr 0x03 60 @ [36, 0, 0, 0x12] @ sample_te_hdr 0x78 0x56 0x34 0x12"

section \<open>Properties\<close>

subsection \<open>The packed size decoder\<close>

lemma get_size_take_bit:
  "get_size s0 s1 s2 =
     take_bit 12 (ucast s0 OR push_bit 8 (ucast s1) OR push_bit 16 (ucast s2))"
proof -
  have "(0x0fff :: u32) = mask 12"
    by (simp add: mask_eq_exp_minus_1)
  then show ?thesis
    by (simp add: get_size_def take_bit_eq_mask)
qed

lemma u8_unat_less: "unat (b :: u8) < 256"
  using unsigned_less [of b, where 'a = nat] by simp

lemma packed_size_unat:
  "unat ((ucast (b0::u8) OR push_bit 8 (ucast (b1::u8)) OR push_bit 16 (ucast (b2::u8))) :: u32)
     = unat b0 + 2 ^ 8 * unat b1 + 2 ^ 16 * unat b2"
proof -
  have a: "(ucast b0 :: u32) AND (push_bit 8 (ucast b1) OR push_bit 16 (ucast b2)) = 0"
    by (rule bit_eqI) (auto simp: bit_simps dest: bit_imp_le_length)
  have b: "(push_bit 8 (ucast b1) :: u32) AND push_bit 16 (ucast b2) = 0"
    by (rule bit_eqI) (auto simp: bit_simps dest: bit_imp_le_length)
  have e: "(ucast b0 OR push_bit 8 (ucast b1) OR push_bit 16 (ucast b2) :: u32)
       = ucast b0 + (push_bit 8 (ucast b1) + push_bit 16 (ucast b2))"
    using a b by (simp add: disjunctive_add_eq_or)
  have l: "unat b0 < 256" "unat b1 < 256" "unat b2 < 256"
    by (rule u8_unat_less)+
  have u: "unat (ucast b0 :: u32) = unat b0" "unat (ucast b1 :: u32) = unat b1"
    "unat (ucast b2 :: u32) = unat b2"
    by (simp_all add: unsigned_ucast_eq take_bit_nat_eq_self unsigned_less[THEN less_trans])
  have p1: "unat (push_bit 8 (ucast b1) :: u32) = 2 ^ 8 * unat b1"
    using l u by (simp add: push_bit_eq_mult unat_word_ariths)
  have p2: "unat (push_bit 16 (ucast b2) :: u32) = 2 ^ 16 * unat b2"
    using l u by (simp add: push_bit_eq_mult unat_word_ariths)
  show ?thesis
    unfolding e using l u p1 p2 by (simp add: unat_word_ariths)
qed

lemma get_size_unat:
  "unat (get_size b0 b1 b2) = (unat b0 + 2 ^ 8 * unat b1 + 2 ^ 16 * unat b2) mod 2 ^ 12"
proof -
  have "unat (get_size b0 b1 b2) =
      take_bit 12 (unat (ucast b0 OR push_bit 8 (ucast b1) OR push_bit 16 (ucast b2) :: u32))"
    by (simp only: get_size_take_bit unsigned_take_bit_eq)
  then show ?thesis
    by (simp only: packed_size_unat take_bit_eq_mod)
qed

lemma get_size_less: "unat (get_size b0 b1 b2) < 4096"
  by (simp add: get_size_unat)

text \<open>
  Claim C8. For every packed size field \<open>[b0, b1, b2]\<close> the decoder returns
  \<open>b0 | b1 << 8 | b2 << 16\<close> masked with \<open>0x0FFF\<close>: the result is the 24-bit value reduced
  modulo \<open>2 ^ 12\<close>, so it depends on the low 12 bits only and is below 4096; the encoding
  \<open>0x001234\<close> (bytes \<open>0x34, 0x12, 0x00\<close>) decodes to \<open>0x234\<close>, not \<open>0x1234\<close>.
\<close>

theorem get_size_low_12_bits:
  "get_size b0 b1 b2 = (ucast b0 OR push_bit 8 (ucast b1) OR push_bit 16 (ucast b2)) AND 0x0fff
   \<and> unat (get_size b0 b1 b2) = (unat b0 + 2 ^ 8 * unat b1 + 2 ^ 16 * unat b2) mod 2 ^ 12
   \<and> unat (get_size b0 b1 b2) < 4096
   \<and> get_size 0x34 0x12 0x00 = 0x234
   \<and> get_size 0x34 0x12 0x00 \<noteq> 0x1234"
proof (intro conjI)
  show "get_size b0 b1 b2 =
      (ucast b0 OR push_bit 8 (ucast b1) OR push_bit 16 (ucast b2)) AND 0x0fff"
    by (simp add: get_size_def)
  show "unat (get_size b0 b1 b2) = (unat b0 + 2 ^ 8 * unat b1 + 2 ^ 16 * unat b2) mod 2 ^ 12"
    by (rule get_size_unat)
  show "unat (get_size b0 b1 b2) < 4096"
    by (rule get_size_less)
  show "get_size 0x34 0x12 0x00 = 0x234"
    by (simp add: get_size_def)
  show "get_size 0x34 0x12 0x00 \<noteq> 0x1234"
    by (simp add: get_size_def)
qed

subsection \<open>Decoding the volume header\<close>

lemma le32_byte0: "ucast (le32 b0 b1 b2 b3) = b0"
  unfolding le32_def by (rule bit_word_eqI) (auto simp: bit_simps dest: bit_imp_le_length)

lemma le32_byte1: "ucast (drop_bit 8 (le32 b0 b1 b2 b3)) = b1"
  unfolding le32_def by (rule bit_word_eqI) (auto simp: bit_simps dest: bit_imp_le_length)

lemma le32_byte2: "ucast (drop_bit 16 (le32 b0 b1 b2 b3)) = b2"
  unfolding le32_def by (rule bit_word_eqI) (auto simp: bit_simps dest: bit_imp_le_length)

lemma le32_byte3: "ucast (drop_bit 24 (le32 b0 b1 b2 b3)) = b3"
  unfolding le32_def by (rule bit_word_eqI) (auto simp: bit_simps dest: bit_imp_le_length)

lemma le32_inject:
  "le32 a0 a1 a2 a3 = le32 b0 b1 b2 b3 \<longleftrightarrow> a0 = b0 \<and> a1 = b1 \<and> a2 = b2 \<and> a3 = b3"
  by (metis le32_byte0 le32_byte1 le32_byte2 le32_byte3)

lemma sign_is_FV_SIGNATURE:
  "sign (decode_fv_hdr hdr) = FV_SIGNATURE \<longleftrightarrow>
     [hdr ! 40, hdr ! 41, hdr ! 42, hdr ! 43] = [0x5f, 0x46, 0x56, 0x48]"
  by (simp add: decode_fv_hdr_def FV_SIGNATURE_def le32_inject)

lemma reset_vector_scan_spec:
  "i \<le> RESET_VECTOR_SIZE \<Longrightarrow>
   (reset_vector_scan buf i = RESET_VECTOR_SIZE) =
   (\<forall>j. i \<le> j \<and> j < RESET_VECTOR_SIZE \<longrightarrow> buf ! j = 0)"
proof (induction buf i rule: reset_vector_scan.induct)
  case (1 buf i)
  show ?case
  proof (cases "i < RESET_VECTOR_SIZE")
    case True
    note lt = this
    show ?thesis
    proof (cases "buf ! i = 0")
      case True
      have a: "(reset_vector_scan buf i = RESET_VECTOR_SIZE) =
          (reset_vector_scan buf (i + 1) = RESET_VECTOR_SIZE)"
        using lt True by (subst reset_vector_scan.simps) simp
      have b: "(reset_vector_scan buf (i + 1) = RESET_VECTOR_SIZE) =
          (\<forall>j. i + 1 \<le> j \<and> j < RESET_VECTOR_SIZE \<longrightarrow> buf ! j = 0)"
        using "1.IH"[OF lt] True lt by simp
      have c: "(\<forall>j. i + 1 \<le> j \<and> j < RESET_VECTOR_SIZE \<longrightarrow> buf ! j = 0) =
          (\<forall>j. i \<le> j \<and> j < RESET_VECTOR_SIZE \<longrightarrow> buf ! j = 0)"
      proof
        assume h: "\<forall>j. i + 1 \<le> j \<and> j < RESET_VECTOR_SIZE \<longrightarrow> buf ! j = 0"
        show "\<forall>j. i \<le> j \<and> j < RESET_VECTOR_SIZE \<longrightarrow> buf ! j = 0"
        proof (intro allI impI)
          fix j assume "i \<le> j \<and> j < RESET_VECTOR_SIZE"
          then have "j = i \<or> (i + 1 \<le> j \<and> j < RESET_VECTOR_SIZE)" by arith
          then show "buf ! j = 0" using True h by blast
        qed
      next
        assume h: "\<forall>j. i \<le> j \<and> j < RESET_VECTOR_SIZE \<longrightarrow> buf ! j = 0"
        then show "\<forall>j. i + 1 \<le> j \<and> j < RESET_VECTOR_SIZE \<longrightarrow> buf ! j = 0" by simp
      qed
      show ?thesis using a b c by simp
    next
      case False
      have "reset_vector_scan buf i = i"
        using lt False by (subst reset_vector_scan.simps) simp
      then show ?thesis using lt False by auto
    qed
  next
    case False
    then have e: "i = RESET_VECTOR_SIZE" using "1.prems" by simp
    have "reset_vector_scan buf i = i"
      using False by (subst reset_vector_scan.simps) simp
    then show ?thesis using e by auto
  qed
qed

lemma reset_vector_empty_iff:
  "reset_vector_empty buf \<longleftrightarrow> (\<forall>j<16. buf ! j = 0)"
  using reset_vector_scan_spec[of 0 buf]
  by (simp add: reset_vector_empty_def RESET_VECTOR_SIZE_def)

lemma reset_vector_of_hdr:
  "reset_vector_empty (reset_vector (decode_fv_hdr hdr)) \<longleftrightarrow> (\<forall>j<16. hdr ! j = 0)"
  by (simp add: reset_vector_empty_iff decode_fv_hdr_def RESET_VECTOR_SIZE_def)

subsection \<open>Exits before the blob is loaded\<close>

text \<open>
  Claim C9. Called with a \<open>NULL\<close> path, the probe returns the sentinel \<open>0xFFFFFFFF\<close>
  at once: the run has no event at all, so no file is opened, nothing is read and the ROM
  sink is not called.
\<close>

theorem null_path_returns_sentinel:
  "efi_probe_firmware w None = Some ([], Inr EFI_INVALID_ENTRY_POINT)
   \<and> EFI_INVALID_ENTRY_POINT = 0xffffffff
   \<and> rom_calls [] = []"
  by (simp add: efi_probe_firmware_def EFI_INVALID_ENTRY_POINT_def)

text \<open>
  Claim C4. When the volume header is read in full and either its four signature bytes
  differ from \<open>_FVH\<close> or one of the 16 bytes of its reset vector is not zero, the probe
  returns exactly 0, which is not the sentinel; the run is open, seek, read of the
  header, close: nothing else is read, no header is decoded and the ROM sink is not
  called.
\<close>

theorem bad_header_returns_zero:
  assumes "fs w path = Some data"
    and "sys_read (read1 w) data sizeof_fv_hdr = (int sizeof_fv_hdr, hdr)"
    and "[hdr ! 40, hdr ! 41, hdr ! 42, hdr ! 43] \<noteq> [0x5f, 0x46, 0x56, 0x48]
         \<or> (\<exists>j<16. hdr ! j \<noteq> 0)"
  shows "efi_probe_firmware w (Some path)
           = Some ([EvOpen path, EvSeekSet, EvRead sizeof_fv_hdr, EvClose], Inr 0)
         \<and> (0 :: u32) \<noteq> EFI_INVALID_ENTRY_POINT
         \<and> rom_calls [EvOpen path, EvSeekSet, EvRead sizeof_fv_hdr, EvClose] = []"
proof -
  have "sign (decode_fv_hdr hdr) \<noteq> FV_SIGNATURE
        \<or> \<not> reset_vector_empty (reset_vector (decode_fv_hdr hdr))"
    using assms(3) by (auto simp only: sign_is_FV_SIGNATURE reset_vector_of_hdr)
  then have "efi_probe_firmware w (Some path)
           = Some ([EvOpen path, EvSeekSet, EvRead sizeof_fv_hdr, EvClose], Inr 0)"
    using assms(1,2) by (auto simp add: efi_probe_firmware_def)
  then show ?thesis
    by (simp add: EFI_INVALID_ENTRY_POINT_def)
qed

theorem bad_header_returns_zero_witness:
  "(sample_image 0x78 0x56 0x34 0x12)[40 := 0x58] ! 40 \<noteq> 0x5f
   \<and> (sample_image 0x78 0x56 0x34 0x12)[15 := 0xea] ! 15 \<noteq> 0
   \<and> efi_probe_firmware (sample_env ((sample_image 0x78 0x56 0x34 0x12)[40 := 0x58])) (Some ''fw.fd'')
     = Some ([EvOpen ''fw.fd'', EvSeekSet, EvRead sizeof_fv_hdr, EvClose], Inr 0)
   \<and> efi_probe_firmware (sample_env ((sample_image 0x78 0x56 0x34 0x12)[15 := 0xea])) (Some ''fw.fd'')
     = Some ([EvOpen ''fw.fd'', EvSeekSet, EvRead sizeof_fv_hdr, EvClose], Inr 0)"
proof -
  let ?a = "(sample_image 0x78 0x56 0x34 0x12)[40 := 0x58]"
  let ?b = "(sample_image 0x78 0x56 0x34 0x12)[15 := 0xea]"
  have a1: "fs (sample_env ?a) ''fw.fd'' = Some ?a"
    by (simp add: sample_env_def)
  have a2: "sys_read (read1 (sample_env ?a)) ?a sizeof_fv_hdr = (int sizeof_fv_hdr, take 56 ?a)"
    by code_simp
  have a3: "[take 56 ?a ! 40, take 56 ?a ! 41, take 56 ?a ! 42, take 56 ?a ! 43]
              \<noteq> [0x5f, 0x46, 0x56, 0x48] \<or> (\<exists>j<16. take 56 ?a ! j \<noteq> 0)"
  proof -
    have "take 56 ?a ! 40 = 0x58" by code_simp
    then show ?thesis by simp
  qed
  have b1: "fs (sample_env ?b) ''fw.fd'' = Some ?b"
    by (simp add: sample_env_def)
  have b2: "sys_read (read1 (sample_env ?b)) ?b sizeof_fv_hdr = (int sizeof_fv_hdr, take 56 ?b)"
    by code_simp
  have b3: "[take 56 ?b ! 40, take 56 ?b ! 41, take 56 ?b ! 42, take 56 ?b ! 43]
              \<noteq> [0x5f, 0x46, 0x56, 0x48] \<or> (\<exists>j<16. take 56 ?b ! j \<noteq> 0)"
  proof -
    have "take 56 ?b ! 15 = 0xea" by code_simp
    then have "\<exists>j<16. take 56 ?b ! j \<noteq> 0"
      by (intro exI[of _ 15]) simp
    then show ?thesis by simp
  qed
  have c1: "?a ! 40 \<noteq> 0x5f" by code_simp
  have c2: "?b ! 15 \<noteq> 0" by code_simp
  show ?thesis
    using c1 c2 bad_header_returns_zero[OF a1 a2 a3] bad_header_returns_zero[OF b1 b2 b3]
    by simp
qed

text \<open>
  Claim C2 (the code differs). A short read of the volume header takes the branch
  \<^verbatim>\<open>entry = 0; goto out;\<close>: on a file of three bytes, and on a file whose read fails,
  the probe returns 0, while a path that cannot be opened gives the sentinel.
\<close>

theorem short_header_read_returns_zero:
  "efi_probe_firmware (sample_env [1, 2, 3]) (Some ''fw.fd'')
     = Some ([EvOpen ''fw.fd'', EvSeekSet, EvRead 56, EvClose], Inr 0)
   \<and> efi_probe_firmware ((sample_env (sample_image 0 0 0 0))\<lparr>read1 := RdError\<rparr>) (Some ''fw.fd'')
     = Some ([EvOpen ''fw.fd'', EvSeekSet, EvRead 56, EvClose], Inr 0)
   \<and> efi_probe_firmware (sample_env [1, 2, 3]) (Some ''missing'')
     = Some ([EvOpen ''missing''], Inr 0xffffffff)"
  by (simp add: efi_probe_firmware_def sample_env_def sizeof_fv_hdr_def
      EFI_INVALID_ENTRY_POINT_def)
subsection \<open>Rules for the two loops\<close>

text \<open>
  What holds of every run of a loop that returns: one case per exit of the loop body,
  and the step to the next iteration.
\<close>

lemma sect_loop_rule:
  assumes run: "sect_loop m e p t = Some r"
    and stop: "\<And>p t. \<not> p < e \<Longrightarrow> Q p t (t, Inr EFI_INVALID_ENTRY_POINT)"
    and ty_fault: "\<And>p t f. p < e \<Longrightarrow> sect_type m p = Inl f \<Longrightarrow> Q p t (t @ [EvSectHdr p], Inl f)"
    and sz_fault: "\<And>p t ty f. p < e \<Longrightarrow> sect_type m p = Inr ty \<Longrightarrow> ty \<noteq> SECTION_TE \<Longrightarrow>
        sect_size m p = Inl f \<Longrightarrow> Q p t (t @ [EvSectHdr p], Inl f)"
    and step: "\<And>p t ty sz r. p < e \<Longrightarrow> sect_type m p = Inr ty \<Longrightarrow> ty \<noteq> SECTION_TE \<Longrightarrow>
        sect_size m p = Inr sz \<Longrightarrow> Q (align4_ptr (p + ucast sz)) (t @ [EvSectHdr p]) r \<Longrightarrow>
        Q p t r"
    and te: "\<And>p t r. p < e \<Longrightarrow> sect_type m p = Inr SECTION_TE \<Longrightarrow>
        r = (case te_sign m (p + sizeof_sect_hdr) of
               Inl f \<Rightarrow> Inl f
             | Inr s \<Rightarrow> if \<not> check_te_sign s then Inr EFI_INVALID_ENTRY_POINT
                        else te_entry_point m (p + sizeof_sect_hdr)) \<Longrightarrow>
        Q p t (t @ [EvSectHdr p, EvTeHdr (p + sizeof_sect_hdr)], r)"
  shows "Q p t r"
proof -
  have "m = m \<and> e = e \<longrightarrow> Q p t r"
  proof (rule sect_loop.raw_induct
      [where P = "\<lambda>m' e' p t r. m' = m \<and> e' = e \<longrightarrow> Q p t r", OF _ run])
    fix g m' e' p t r
    assume IH: "\<And>m' e' p t r. g m' e' p t = Some r \<Longrightarrow> m' = m \<and> e' = e \<longrightarrow> Q p t r"
      and body: "(if p < e'
      then case sect_type m' p of
           Inl f \<Rightarrow> Some (t @ [EvSectHdr p], Inl f)
           | Inr ty \<Rightarrow>
               if ty \<noteq> SECTION_TE
               then case sect_size m' p of
                    Inl f \<Rightarrow> Some (t @ [EvSectHdr p], Inl f)
                    | Inr sz \<Rightarrow>
                        g m' e' (align4_ptr (p + ucast sz))
                         (t @ [EvSectHdr p])
               else case te_sign m' (p + sizeof_sect_hdr) of
                    Inl f \<Rightarrow>
                      Some
                       (t @
                        [EvSectHdr p, EvTeHdr (p + sizeof_sect_hdr)],
                        Inl f)
                    | Inr s \<Rightarrow>
                        if \<not> check_te_sign s
                        then Some
                              (t @
                               [EvSectHdr p,
                                EvTeHdr (p + sizeof_sect_hdr)],
                               Inr EFI_INVALID_ENTRY_POINT)
                        else case te_entry_point m'
                                   (p + sizeof_sect_hdr) of
                             Inl f \<Rightarrow>
                               Some
                                (t @
                                 [EvSectHdr p,
                                  EvTeHdr (p + sizeof_sect_hdr)],
                                 Inl f)
                             | Inr e \<Rightarrow>
                                 Some
                                  (t @
                                   [EvSectHdr p,
                                    EvTeHdr (p + sizeof_sect_hdr)],
                                   Inr e)
      else Some (t, Inr EFI_INVALID_ENTRY_POINT)) = Some r"
    show "m' = m \<and> e' = e \<longrightarrow> Q p t r"
    proof
      assume eq: "m' = m \<and> e' = e"
      show "Q p t r"
      proof (cases "p < e")
        case False
        then show ?thesis using body eq stop by auto
      next
        case lt: True
        show ?thesis
        proof (cases "sect_type m p")
          case (Inl f)
          then show ?thesis using body eq lt ty_fault by auto
        next
          case (Inr ty)
          show ?thesis
          proof (cases "ty = SECTION_TE")
            case False
            show ?thesis
            proof (cases "sect_size m p")
              case (Inl f)
              then show ?thesis using body eq lt Inr False sz_fault by auto
            next
              case sz: (Inr sz)
              have "g m e (align4_ptr (p + ucast sz)) (t @ [EvSectHdr p]) = Some r"
                using body eq lt Inr False sz by simp
              from IH[OF this] have "Q (align4_ptr (p + ucast sz)) (t @ [EvSectHdr p]) r"
                by simp
              then show ?thesis using step lt Inr False sz by blast
            qed
          next
            case True
            have "\<exists>r'. r = (t @ [EvSectHdr p, EvTeHdr (p + sizeof_sect_hdr)], r') \<and>
                r' = (case te_sign m (p + sizeof_sect_hdr) of
               Inl f \<Rightarrow> Inl f
             | Inr s \<Rightarrow> if \<not> check_te_sign s then Inr EFI_INVALID_ENTRY_POINT
                        else te_entry_point m (p + sizeof_sect_hdr))"
              using body eq lt Inr True by (auto split: sum.splits if_splits)
            then show ?thesis using te lt Inr True by blast
          qed
        qed
      qed
    qed
  qed
  then show ?thesis by simp
qed

lemma file_loop_rule:
  assumes run: "file_loop m e p t = Some r"
    and stop: "\<And>p t. \<not> p < e \<Longrightarrow> Q p t (t, Inr EFI_INVALID_ENTRY_POINT)"
    and ty_fault: "\<And>p t f. p < e \<Longrightarrow> file_type m p = Inl f \<Longrightarrow> Q p t (t @ [EvFileHdr p], Inl f)"
    and sec: "\<And>p t r. p < e \<Longrightarrow> file_type m p = Inr SECURITY_CORE \<Longrightarrow>
        get_sec_entry_point m p (t @ [EvFileHdr p]) = Some r \<Longrightarrow> Q p t r"
    and sz_fault: "\<And>p t ty f. p < e \<Longrightarrow> file_type m p = Inr ty \<Longrightarrow> ty \<noteq> SECURITY_CORE \<Longrightarrow>
        file_size m p = Inl f \<Longrightarrow> Q p t (t @ [EvFileHdr p], Inl f)"
    and step: "\<And>p t ty sz r. p < e \<Longrightarrow> file_type m p = Inr ty \<Longrightarrow> ty \<noteq> SECURITY_CORE \<Longrightarrow>
        file_size m p = Inr sz \<Longrightarrow> Q (align8_ptr (p + ucast sz)) (t @ [EvFileHdr p]) r \<Longrightarrow>
        Q p t r"
  shows "Q p t r"
proof -
  have "m = m \<and> e = e \<longrightarrow> Q p t r"
  proof (rule file_loop.raw_induct
      [where P = "\<lambda>m' e' p t r. m' = m \<and> e' = e \<longrightarrow> Q p t r", OF _ run])
    fix g m' e' p t r
    assume IH: "\<And>m' e' p t r. g m' e' p t = Some r \<Longrightarrow> m' = m \<and> e' = e \<longrightarrow> Q p t r"
      and body: "(if p < e'
      then case file_type m' p of
           Inl f \<Rightarrow> Some (t @ [EvFileHdr p], Inl f)
           | Inr ty \<Rightarrow>
               if ty = SECURITY_CORE
               then get_sec_entry_point m' p (t @ [EvFileHdr p])
               else case file_size m' p of
                    Inl f \<Rightarrow> Some (t @ [EvFileHdr p], Inl f)
                    | Inr sz \<Rightarrow>
                        g m' e' (align8_ptr (p + ucast sz))
                         (t @ [EvFileHdr p])
      else Some (t, Inr EFI_INVALID_ENTRY_POINT)) = Some r"
    show "m' = m \<and> e' = e \<longrightarrow> Q p t r"
    proof
      assume eq: "m' = m \<and> e' = e"
      show "Q p t r"
      proof (cases "p < e")
        case False
        then show ?thesis using body eq stop by auto
      next
        case lt: True
        show ?thesis
        proof (cases "file_type m p")
          case (Inl f)
          then show ?thesis using body eq lt ty_fault by auto
        next
          case (Inr ty)
          show ?thesis
          proof (cases "ty = SECURITY_CORE")
            case True
            then show ?thesis using body eq lt Inr sec by auto
          next
            case False
            show ?thesis
            proof (cases "file_size m p")
              case (Inl f)
              then show ?thesis using body eq lt Inr False sz_fault by auto
            next
              case sz: (Inr sz)
              have "g m e (align8_ptr (p + ucast sz)) (t @ [EvFileHdr p]) = Some r"
                using body eq lt Inr False sz by simp
              from IH[OF this] have "Q (align8_ptr (p + ucast sz)) (t @ [EvFileHdr p]) r"
                by simp
              then show ?thesis using step lt Inr False sz by blast
            qed
          qed
        qed
      qed
    qed
  qed
  then show ?thesis by simp
qed

subsection \<open>A size field of zero\<close>

text \<open>
  A file entry that is not a Security-Core file, has a size field of 0 and sits at an
  aligned address leaves \<^verbatim>\<open>ptr\<close> where it is: the file scan never returns.
\<close>

lemma file_loop_stuck:
  assumes lt: "p0 < e0" and ty: "file_type m0 p0 = Inr ty" and ns: "ty \<noteq> SECURITY_CORE"
    and sz: "file_size m0 p0 = Inr 0" and al: "align8_ptr p0 = p0"
  shows "file_loop m0 e0 p0 tr = None"
proof (rule ccontr)
  assume "file_loop m0 e0 p0 tr \<noteq> None"
  then obtain y where y: "file_loop m0 e0 p0 tr = Some y" by auto
  have "p0 \<noteq> p0"
  proof (rule file_loop_rule[OF y, where Q = "\<lambda>p t r. p \<noteq> p0"])
    fix p assume "\<not> p < e0"
    then show "p \<noteq> p0" using lt by auto
  next
    fix p f assume "file_type m0 p = Inl f"
    then show "p \<noteq> p0" using ty by auto
  next
    fix p assume "file_type m0 p = Inr SECURITY_CORE"
    then show "p \<noteq> p0" using ty ns by auto
  next
    fix p f assume "file_size m0 p = Inl f"
    then show "p \<noteq> p0" using sz by auto
  next
    fix p sz' assume s: "file_size m0 p = Inr sz'" and n: "align8_ptr (p + ucast sz') \<noteq> p0"
    show "p \<noteq> p0"
    proof
      assume "p = p0"
      then show False using s n sz al by simp
    qed
  qed
  then show False by simp
qed

text \<open>
  Claim C7 (the code differs). On the volume whose first file entry has type 0 and a
  size field of 0, \<^verbatim>\<open>ptr += get_size(file->size); ptr = align8_ptr(ptr);\<close> does not
  move \<^verbatim>\<open>ptr\<close>, and the probe does not return.
\<close>

theorem zero_size_file_never_returns:
  "efi_probe_firmware (sample_env zero_size_image) (Some ''fw.fd'') = None"
proof -
  let ?m = "\<lparr>base = 0x7f0000001000, bytes = zero_size_image\<rparr>"
  let ?fv = "decode_fv_hdr (take 56 zero_size_image)"
  have 1: "file_type ?m 0x7f0000001038 = Inr 0" by code_simp
  have 2: "file_size ?m 0x7f0000001038 = Inr 0" by code_simp
  have 3: "align8_ptr 0x7f0000001038 = 0x7f0000001038" by code_simp
  have 4: "(0x7f0000001038 :: addr) < 0x7f0000001088" by simp
  have 5: "(0 :: u8) \<noteq> SECURITY_CORE" by (simp add: SECURITY_CORE_def)
  have s: "file_loop ?m 0x7f0000001088 0x7f0000001038 [EvMalloc 80, EvSeekSet, EvRead 80] = None"
    by (rule file_loop_stuck[OF 4 1 5 2 3])
  have h: "hdr_len ?fv = 56" by code_simp
  have l: "fv_len ?fv = 80" by code_simp
  have g: "get_entry_point ?m ?fv [EvMalloc 80, EvSeekSet, EvRead 80] = None"
    using s by (simp add: get_entry_point_def h l align8_ptr_def)
  have len: "length zero_size_image = 80" by code_simp
  have sg: "sign ?fv = FV_SIGNATURE" by code_simp
  have rv: "reset_vector_empty (reset_vector ?fv)" by code_simp
  have "load_firmware (sample_env zero_size_image) zero_size_image 80 ?fv = None"
    using g by (simp add: load_firmware_def sample_env_def len)
  then show ?thesis
    by (simp add: efi_probe_firmware_def sample_env_def sizeof_fv_hdr_def len sg rv)
qed
subsection \<open>Runs on the sample images\<close>

text \<open>
  Claim C3 (the code differs). The Security-Core file of the image sits at offset 56 and
  its size field is 32, so the file ends at offset 88, where the next file starts. The
  section scan runs up to \<^verbatim>\<open>file + sizeof(*file) + get_size(file->size)\<close>, offset 112:
  after the section at offset 80 it decodes a section header at offset 88, in the header
  of the next file.
\<close>

theorem section_scan_passes_file_end:
  "efi_probe_firmware (sample_env overshoot_image) (Some ''fw.fd'')
     = Some ([EvOpen ''fw.fd'', EvSeekSet, EvRead 56, EvSeekEnd, EvMalloc 112, EvSeekSet,
              EvRead 112, EvFileHdr (0x7f0000001000 + 56), EvSectHdr (0x7f0000001000 + 80),
              EvSectHdr (0x7f0000001000 + 88),
              EvRomAddBlobFixed ''uefi'' overshoot_image 112 0, EvFree, EvClose],
             Inr 0xffffffff)
   \<and> file_size \<lparr>base = 0x7f0000001000, bytes = overshoot_image\<rparr> (0x7f0000001000 + 56)
     = Inr 32
   \<and> (0x7f0000001000 + 56 + 32 :: addr) = 0x7f0000001000 + 88"
  by code_simp

text \<open>
  Claim C10. The value of the \<open>entry_point\<close> field is returned as it is. The sample image
  with the field 0 makes the probe return 0 after a successful scan, the value it also
  returns when it skips a volume with a bad signature; with the field \<open>0xFFFFFFFF\<close> it
  returns the sentinel, the value it also returns when the TE signature is wrong.
\<close>

theorem entry_point_not_validated:
  "efi_probe_firmware (sample_env (sample_image 0 0 0 0)) (Some ''fw.fd'')
     = Some ([EvOpen ''fw.fd'', EvSeekSet, EvRead 56, EvSeekEnd, EvMalloc 164, EvSeekSet,
              EvRead 164, EvFileHdr (0x7f0000001000 + 56), EvFileHdr (0x7f0000001000 + 88),
              EvSectHdr (0x7f0000001000 + 112), EvSectHdr (0x7f0000001000 + 120),
              EvTeHdr (0x7f0000001000 + 124),
              EvRomAddBlobFixed ''uefi'' (sample_image 0 0 0 0) 164 0, EvFree, EvClose],
             Inr 0)
   \<and> efi_probe_firmware (sample_env (sample_image 0xff 0xff 0xff 0xff)) (Some ''fw.fd'')
     = Some ([EvOpen ''fw.fd'', EvSeekSet, EvRead 56, EvSeekEnd, EvMalloc 164, EvSeekSet,
              EvRead 164, EvFileHdr (0x7f0000001000 + 56), EvFileHdr (0x7f0000001000 + 88),
              EvSectHdr (0x7f0000001000 + 112), EvSectHdr (0x7f0000001000 + 120),
              EvTeHdr (0x7f0000001000 + 124),
              EvRomAddBlobFixed ''uefi'' (sample_image 0xff 0xff 0xff 0xff) 164 0, EvFree,
              EvClose],
             Inr EFI_INVALID_ENTRY_POINT)
   \<and> map_option snd
         (efi_probe_firmware (sample_env ((sample_image 0 0 0 0)[40 := 0x58])) (Some ''fw.fd''))
     = Some (Inr 0)
   \<and> map_option snd
         (efi_probe_firmware (sample_env ((sample_image 0 0 0 0)[125 := 0])) (Some ''fw.fd''))
     = Some (Inr EFI_INVALID_ENTRY_POINT)"
  by code_simp

subsection \<open>What a read returns\<close>

lemma sys_read_count:
  assumes "sys_read r data n = (int k, bs)"
  shows "bs = take k data \<and> k \<le> length data \<and> k \<le> n"
  using assms by (cases r) (auto simp: min_def split: if_splits)

subsection \<open>Addresses and offsets\<close>

text \<open>
  The code computes with 64-bit addresses, the layout is stated in offsets: an address
  inside or near the buffer is \<open>base + of_nat i\<close>, and comparison, alignment and reads
  at such addresses are those of the offsets as long as nothing wraps around.
\<close>

lemma and_not_mask_unat: "unat ((x :: addr) AND NOT (mask k)) = unat x div 2 ^ k * 2 ^ k"
proof -
  have "x AND NOT (mask k) = push_bit k (drop_bit k x)"
    by (rule bit_word_eqI) (auto simp: bit_simps)
  then have "unat (x AND NOT (mask k)) = unat (push_bit k (drop_bit k x))"
    by simp
  also have "\<dots> = take_bit 64 (push_bit k (drop_bit k (unat x)))"
    by (simp add: unsigned_push_bit_eq unat_drop_bit_eq)
  also have "\<dots> = push_bit k (drop_bit k (unat x))"
  proof (rule take_bit_nat_eq_self)
    have "push_bit k (drop_bit k (unat x)) \<le> unat x"
      by (simp add: push_bit_eq_mult drop_bit_eq_div)
    also have "unat x < 2 ^ 64"
      using unsigned_less[of x, where 'a = nat] by simp
    finally show "push_bit k (drop_bit k (unat x)) < 2 ^ 64" .
  qed
  finally show ?thesis
    by (simp add: push_bit_eq_mult drop_bit_eq_div)
qed

lemma and_not_7_unat: "unat ((x :: addr) AND NOT 7) = unat x div 8 * 8"
  using and_not_mask_unat[of x 3] by (simp add: mask_eq_exp_minus_1)

lemma and_not_3_unat: "unat ((x :: addr) AND NOT 3) = unat x div 4 * 4"
  using and_not_mask_unat[of x 2] by (simp add: mask_eq_exp_minus_1)

lemma unat_at: "unat (b :: addr) + n < 2 ^ 64 \<Longrightarrow> unat (b + of_nat n) = unat b + n"
proof -
  assume a: "unat b + n < 2 ^ 64"
  then have n: "n < 2 ^ 64" by simp
  have u: "unat (of_nat n :: addr) = n"
    using n by (simp add: unat_of_nat take_bit_nat_eq_self)
  have "unat b + unat (of_nat n :: addr) < 2 ^ LENGTH(64)"
    using a u by simp
  then have "unat (b + of_nat n) = unat b + unat (of_nat n :: addr)"
    by (simp only: unat_add_lem)
  then show ?thesis using u by simp
qed

lemma at_less: "unat (b :: addr) + i < 2 ^ 64 \<Longrightarrow> unat b + j < 2 ^ 64 \<Longrightarrow>
  (b + of_nat i < b + of_nat j) = (i < j)"
  by (simp add: word_less_nat_alt unat_at)

lemma rd8_at:
  assumes "unat (base m) + length (bytes m) \<le> 2 ^ 64" and "i < length (bytes m)"
  shows "rd8 m (base m + of_nat i) = Inr (bytes m ! i)"
proof -
  have "i < 2 ^ 64" using assms by simp
  then have "unat (of_nat i :: addr) = i"
    by (simp add: unat_of_nat take_bit_nat_eq_self)
  then show ?thesis using assms(2) by (simp add: rd8_def)
qed

lemma align8_unat:
  assumes "unat (p :: addr) + 7 < 2 ^ 64"
  shows "unat (align8_ptr p) = (unat p + 7) div 8 * 8"
proof -
  have "unat (p + 7) = unat p + 7"
    using unat_at[of p 7] assms by simp
  then show ?thesis
    by (simp only: align8_ptr_def and_not_7_unat)
qed

lemma align4_unat:
  assumes "unat (p :: addr) + 3 < 2 ^ 64"
  shows "unat (align4_ptr p) = (unat p + 3) div 4 * 4"
proof -
  have "unat (p + 3) = unat p + 3"
    using unat_at[of p 3] assms by simp
  then show ?thesis
    by (simp only: align4_ptr_def and_not_3_unat)
qed

lemma align_up_mult_shift:
  assumes "k dvd (B :: nat)" and "0 < k"
  shows "(B + n) div k * k = B + n div k * k"
proof -
  from assms(1) obtain q where q: "B = k * q" by (auto simp: dvd_def)
  have "(k * q + n) div k = q + n div k"
    using assms(2) by simp
  then show ?thesis using q by (simp add: algebra_simps)
qed

lemma align_up_le: "align_up k n \<le> n + (k - 1)"
  by (simp add: align_up_def)

lemma align_up_ge: "0 < k \<Longrightarrow> n \<le> align_up k n"
proof -
  assume k: "0 < k"
  have "n + (k - 1) = (n + (k - 1)) div k * k + (n + (k - 1)) mod k"
    by simp
  moreover have "(n + (k - 1)) mod k \<le> k - 1"
    using k by (simp add: less_Suc_eq_le[symmetric] del: less_Suc_eq_le)
  ultimately show ?thesis
    unfolding align_up_def by linarith
qed

lemma align8_at:
  assumes "unat (b :: addr) + i + 7 < 2 ^ 64" and "8 dvd unat b"
  shows "align8_ptr (b + of_nat i) = b + of_nat (align_up 8 i)"
proof -
  have u: "unat (b + of_nat i) = unat b + i"
    using unat_at[of b i] assms by simp
  have "unat (align8_ptr (b + of_nat i)) = (unat b + (i + 7)) div 8 * 8"
    using align8_unat[of "b + of_nat i"] assms u by (simp add: add.assoc)
  also have "\<dots> = unat b + (i + 7) div 8 * 8"
    using assms(2) by (rule align_up_mult_shift) simp
  also have "\<dots> = unat (b + of_nat (align_up 8 i))"
  proof -
    have "align_up 8 i \<le> i + 7"
      using align_up_le[of 8 i] by simp
    then have "unat b + align_up 8 i < 2 ^ 64"
      using assms(1) by linarith
    then show ?thesis
      using unat_at[of b "align_up 8 i"] by (simp add: align_up_def)
  qed
  finally show ?thesis
    by (simp only: word_unat_eq_iff)
qed

lemma align4_at:
  assumes "unat (b :: addr) + i + 3 < 2 ^ 64" and "4 dvd unat b"
  shows "align4_ptr (b + of_nat i) = b + of_nat (align_up 4 i)"
proof -
  have u: "unat (b + of_nat i) = unat b + i"
    using unat_at[of b i] assms by simp
  have "unat (align4_ptr (b + of_nat i)) = (unat b + (i + 3)) div 4 * 4"
    using align4_unat[of "b + of_nat i"] assms u by (simp add: add.assoc)
  also have "\<dots> = unat b + (i + 3) div 4 * 4"
    using assms(2) by (rule align_up_mult_shift) simp
  also have "\<dots> = unat (b + of_nat (align_up 4 i))"
  proof -
    have "align_up 4 i \<le> i + 3"
      using align_up_le[of 4 i] by simp
    then have "unat b + align_up 4 i < 2 ^ 64"
      using assms(1) by linarith
    then show ?thesis
      using unat_at[of b "align_up 4 i"] by (simp add: align_up_def)
  qed
  finally show ?thesis
    by (simp only: word_unat_eq_iff)
qed

lemma rd8_off:
  assumes "unat (base m) + length (bytes m) \<le> 2 ^ 63" and "i + k < length (bytes m)"
  shows "rd8 m (base m + of_nat i + of_nat k) = Inr (bytes m ! (i + k))"
proof -
  have "unat (base m) + length (bytes m) \<le> 2 ^ 64"
    using assms(1) by simp
  from rd8_at[OF this assms(2)] show ?thesis
    by (simp add: add.assoc)
qed

lemma file_type_at:
  assumes "unat (base m) + length (bytes m) \<le> 2 ^ 63" and "f + 24 \<le> length (bytes m)"
  shows "file_type m (base m + of_nat f) = Inr (bytes m ! (f + 18))"
  using rd8_off[OF assms(1), of f 18] assms(2) by (simp add: file_type_def)

lemma rd_size_at:
  assumes "unat (base m) + length (bytes m) \<le> 2 ^ 63" and "i + 3 \<le> length (bytes m)"
  shows "rd_size m (base m + of_nat i)
           = Inr (get_size (bytes m ! i) (bytes m ! (i + 1)) (bytes m ! (i + 2)))"
  using rd8_off[OF assms(1), of i 0] rd8_off[OF assms(1), of i 1] rd8_off[OF assms(1), of i 2]
    assms(2)
  by (simp add: rd_size_def bnd_def)

lemma file_size_at:
  assumes "unat (base m) + length (bytes m) \<le> 2 ^ 63" and "f + 24 \<le> length (bytes m)"
  shows "file_size m (base m + of_nat f)
           = Inr (get_size (bytes m ! (f + 20)) (bytes m ! (f + 21)) (bytes m ! (f + 22)))"
proof -
  have "base m + of_nat f + 20 = base m + of_nat (f + 20)" by simp
  then show ?thesis
    using rd_size_at[OF assms(1), of "f + 20"] assms(2)
    by (simp add: file_size_def ac_simps)
qed

lemma sect_type_at:
  assumes "unat (base m) + length (bytes m) \<le> 2 ^ 63" and "s + 4 \<le> length (bytes m)"
  shows "sect_type m (base m + of_nat s) = Inr (bytes m ! (s + 3))"
  using rd8_off[OF assms(1), of s 3] assms(2) by (simp add: sect_type_def)

lemma sect_size_at:
  assumes "unat (base m) + length (bytes m) \<le> 2 ^ 63" and "s + 4 \<le> length (bytes m)"
  shows "sect_size m (base m + of_nat s)
           = Inr (get_size (bytes m ! s) (bytes m ! (s + 1)) (bytes m ! (s + 2)))"
  using rd_size_at[OF assms(1), of s] assms(2) by (simp add: sect_size_def)

lemma te_sign_at:
  assumes "unat (base m) + length (bytes m) \<le> 2 ^ 63" and "t + 2 \<le> length (bytes m)"
  shows "te_sign m (base m + of_nat t) = Inr (le16 (bytes m ! t) (bytes m ! (t + 1)))"
  using rd8_off[OF assms(1), of t 0] rd8_off[OF assms(1), of t 1] assms(2)
  by (simp add: te_sign_def rd16_def bnd_def)

lemma te_entry_point_at:
  assumes "unat (base m) + length (bytes m) \<le> 2 ^ 63" and "t + 12 \<le> length (bytes m)"
  shows "te_entry_point m (base m + of_nat t)
           = Inr (le32 (bytes m ! (t + 8)) (bytes m ! (t + 9)) (bytes m ! (t + 10))
                       (bytes m ! (t + 11)))"
  using rd8_off[OF assms(1), of t 8] rd8_off[OF assms(1), of t 9]
    rd8_off[OF assms(1), of t 10] rd8_off[OF assms(1), of t 11] assms(2)
  by (simp add: te_entry_point_def rd32_def bnd_def add.assoc)

lemma size_at_raw: "raw_size_at bs i < 4096 \<Longrightarrow> size_at bs i = raw_size_at bs i"
proof -
  assume a: "raw_size_at bs i < 4096"
  have "size_at bs i = take_bit 12 (raw_size_at bs i)"
    by (simp only: size_at_def raw_size_at_def le24_def get_size_take_bit unsigned_take_bit_eq)
  then show ?thesis using a by (simp add: take_bit_eq_mod)
qed

lemma align4_at_gen:
  assumes "unat (b :: addr) + i + 3 < 2 ^ 64"
  shows "\<exists>j. align4_ptr (b + of_nat i) = b + of_nat j \<and> i \<le> j \<and> j \<le> i + 3"
proof -
  let ?N = "align_up 4 (unat b + i)"
  have u: "unat (b + of_nat i) = unat b + i"
    using unat_at[of b i] assms by simp
  have n: "unat (align4_ptr (b + of_nat i)) = ?N"
    using align4_unat[of "b + of_nat i"] assms u by (simp add: align_up_def)
  have lo: "unat b + i \<le> ?N"
    by (rule align_up_ge) simp
  have hi: "?N \<le> unat b + i + 3"
    using align_up_le[of 4 "unat b + i"] by simp
  have "unat (b + of_nat (?N - unat b)) = unat b + (?N - unat b)"
    by (rule unat_at) (use hi assms in linarith)
  then have "unat (align4_ptr (b + of_nat i)) = unat (b + of_nat (?N - unat b))"
    using n lo by simp
  then have "align4_ptr (b + of_nat i) = b + of_nat (?N - unat b)"
    by (simp only: word_unat_eq_iff)
  moreover have "i \<le> ?N - unat b" "?N - unat b \<le> i + 3"
    using lo hi by linarith+
  ultimately show ?thesis by blast
qed

lemma at_less_room:
  assumes "unat (base m) + length (bytes m) \<le> 2 ^ 63"
    and "i \<le> length (bytes m) + 2 ^ 16" and "j \<le> length (bytes m) + 2 ^ 16"
  shows "(base m + of_nat i < base m + of_nat j) = (i < j)"
proof -
  have "unat (base m) + i < 2 ^ 64" "unat (base m) + j < 2 ^ 64"
    using assms by simp_all
  then show ?thesis by (simp only: at_less)
qed


subsection \<open>The entry point of a well-formed image\<close>

lemma size_at_mod: "size_at bs i = raw_size_at bs i mod 4096"
proof -
  have "size_at bs i = take_bit 12 (raw_size_at bs i)"
    by (simp only: size_at_def raw_size_at_def le24_def get_size_take_bit unsigned_take_bit_eq)
  then show ?thesis by (simp add: take_bit_eq_mod)
qed

lemma size_at_less: "size_at bs i < 4096"
  by (simp add: size_at_def get_size_less)

lemma file_loop_step:
  assumes fits: "unat (base m) + length (bytes m) \<le> 2 ^ 63"
    and al: "8 dvd unat (base m)"
    and lim: "lim \<le> length (bytes m) + 2 ^ 16"
    and f: "f < lim" "f + 24 \<le> length (bytes m)"
    and ty: "bytes m ! (f + 18) \<noteq> SECURITY_CORE"
  shows "file_loop m (base m + of_nat lim) (base m + of_nat f) t
      = file_loop m (base m + of_nat lim)
          (base m + of_nat (align_up 8 (f + size_at (bytes m) (f + 20))))
          (t @ [EvFileHdr (base m + of_nat f)])"
proof -
  let ?sz = "size_at (bytes m) (f + 20)"
  have s4: "?sz < 4096"
    by (rule size_at_less)
  have lt: "base m + of_nat f < base m + of_nat lim"
  proof -
    have "unat (base m) + f < 2 ^ 64" "unat (base m) + lim < 2 ^ 64"
      using fits lim f by simp_all
    then show ?thesis using f(1) by (simp only: at_less)
  qed
  have nx: "align8_ptr (base m + of_nat f
              + ucast (get_size (bytes m ! (f + 20)) (bytes m ! (f + 21)) (bytes m ! (f + 22))))
            = base m + of_nat (align_up 8 (f + ?sz))"
  proof -
    have e: "base m + of_nat f
              + ucast (get_size (bytes m ! (f + 20)) (bytes m ! (f + 21)) (bytes m ! (f + 22)))
            = base m + of_nat (f + ?sz)"
      by (simp add: size_at_def ac_simps)
    have "unat (base m) + (f + ?sz) + 7 < 2 ^ 64"
      using fits f s4 by simp
    from align8_at[OF this al] show ?thesis
      by (simp only: e)
  qed
  show ?thesis
    by (subst file_loop.simps)
      (simp only: lt file_type_at[OF fits f(2)] file_size_at[OF fits f(2)] ty nx if_True
        if_False sum.case)
qed

lemma file_walk_loop:
  assumes fits: "unat (base m) + length (bytes m) \<le> 2 ^ 63"
    and al: "8 dvd unat (base m)"
    and ve: "vend \<le> length (bytes m)" "vend \<le> lim" "lim \<le> length (bytes m) + 2 ^ 16"
  shows "file_walk 4096 (bytes m) vend f xs g \<Longrightarrow>
     file_loop m (base m + of_nat lim) (base m + of_nat f) t
       = file_loop m (base m + of_nat lim) (base m + of_nat g)
           (t @ map (\<lambda>x. EvFileHdr (base m + of_nat x)) xs)"
proof (induction xs arbitrary: f t)
  case Nil
  then show ?case by simp
next
  case (Cons x xs)
  let ?sz = "size_at (bytes m) (f + 20)"
  from Cons.prems have raw: "raw_size_at (bytes m) (f + 20) < 4096" by simp
  note eq = size_at_raw[OF raw]
  from Cons.prems have x: "x = f" and sz: "24 \<le> ?sz" "f + ?sz \<le> vend"
    and ty: "bytes m ! (f + 18) \<noteq> SECURITY_CORE"
    and rest: "file_walk 4096 (bytes m) vend (align_up 8 (f + ?sz)) xs g"
    by (simp_all add: eq)
  have f: "f < lim" "f + 24 \<le> length (bytes m)"
    using sz ve by linarith+
  have "file_loop m (base m + of_nat lim) (base m + of_nat f) t
      = file_loop m (base m + of_nat lim) (base m + of_nat (align_up 8 (f + ?sz)))
          (t @ [EvFileHdr (base m + of_nat f)])"
    by (rule file_loop_step[OF fits al ve(3) f ty])
  also have "\<dots> = file_loop m (base m + of_nat lim) (base m + of_nat g)
      ((t @ [EvFileHdr (base m + of_nat f)]) @ map (\<lambda>x. EvFileHdr (base m + of_nat x)) xs)"
    by (rule Cons.IH[OF rest])
  finally show ?case using x by simp
qed

text \<open>
  At a Security-Core file the file scan hands over to the section scan, whose end bound
  is the end of the file header plus the decoded size.
\<close>

lemma file_loop_sec:
  assumes fits: "unat (base m) + length (bytes m) \<le> 2 ^ 63"
    and al: "8 dvd unat (base m)"
    and lim: "lim \<le> length (bytes m) + 2 ^ 16"
    and fil: "f < lim" "f + 24 \<le> length (bytes m)" "bytes m ! (f + 18) = SECURITY_CORE"
  shows "file_loop m (base m + of_nat lim) (base m + of_nat f) t
     = sect_loop m (base m + of_nat (f + 24 + size_at (bytes m) (f + 20)))
         (base m + of_nat (align_up 4 (f + 24))) (t @ [EvFileHdr (base m + of_nat f)])"
proof -
  let ?sz = "size_at (bytes m) (f + 20)"
  let ?t1 = "t @ [EvFileHdr (base m + of_nat f)]"
  have a4: "4 dvd unat (base m)"
    using al by (rule dvd_trans[rotated]) simp
  have lt: "base m + of_nat f < base m + of_nat lim"
  proof -
    have "unat (base m) + f < 2 ^ 64" "unat (base m) + lim < 2 ^ 64"
      using fits lim fil by simp_all
    then show ?thesis using fil(1) by (simp only: at_less)
  qed
  have e: "base m + of_nat f + sizeof_file_hdr
             + ucast (get_size (bytes m ! (f + 20)) (bytes m ! (f + 21)) (bytes m ! (f + 22)))
           = base m + of_nat (f + 24 + ?sz)"
    by (simp add: size_at_def sizeof_file_hdr_def ac_simps)
  have st: "align4_ptr (base m + of_nat f + sizeof_file_hdr)
           = base m + of_nat (align_up 4 (f + 24))"
  proof -
    have "unat (base m) + (f + 24) + 3 < 2 ^ 64"
      using fits fil by simp
    from align4_at[OF this a4] show ?thesis
      by (simp add: sizeof_file_hdr_def ac_simps)
  qed
  have "file_loop m (base m + of_nat lim) (base m + of_nat f) t
      = get_sec_entry_point m (base m + of_nat f) ?t1"
    by (subst file_loop.simps)
      (simp only: lt file_type_at[OF fits fil(2)] fil if_True sum.case simp_thms)
  also have "\<dots> = sect_loop m (base m + of_nat (f + 24 + ?sz))
                      (base m + of_nat (align_up 4 (f + 24))) ?t1"
    by (simp only: get_sec_entry_point_def file_size_at[OF fits fil(2)] sum.case e st)
  finally show ?thesis .
qed

lemma sect_walk_le: "sect_walk bs fend s xs g \<Longrightarrow> s \<le> g"
proof (induction xs arbitrary: s)
  case Nil
  then show ?case by simp
next
  case (Cons x xs)
  from Cons.prems have rest: "sect_walk bs fend (align_up 4 (s + raw_size_at bs s)) xs g"
    by simp
  have "s \<le> s + raw_size_at bs s" by simp
  also have "\<dots> \<le> align_up 4 (s + raw_size_at bs s)"
    by (rule align_up_ge) simp
  also have "\<dots> \<le> g"
    by (rule Cons.IH[OF rest])
  finally show ?case .
qed

text \<open>
  Sections that are laid out one after another over less than 4096 bytes are each smaller
  than 4096 bytes: the section scan steps from each to the next.
\<close>

lemma sect_walk_loop:
  assumes fits: "unat (base m) + length (bytes m) \<le> 2 ^ 63"
    and al: "4 dvd unat (base m)"
    and ve: "fend \<le> length (bytes m)" "lim \<le> length (bytes m) + 2 ^ 16"
  shows "sect_walk (bytes m) fend s xs g \<Longrightarrow> g \<le> lim \<Longrightarrow> g < s + 4096 \<Longrightarrow>
     sect_loop m (base m + of_nat lim) (base m + of_nat s) t
       = sect_loop m (base m + of_nat lim) (base m + of_nat g)
           (t @ map (\<lambda>x. EvSectHdr (base m + of_nat x)) xs)"
proof (induction xs arbitrary: s t)
  case Nil
  then show ?case by simp
next
  case (Cons x xs)
  let ?raw = "raw_size_at (bytes m) s"
  from Cons.prems(1) have x: "x = s" and r4: "4 \<le> ?raw" and re: "s + ?raw \<le> fend"
    and ty: "bytes m ! (s + 3) \<noteq> SECTION_TE"
    and rest: "sect_walk (bytes m) fend (align_up 4 (s + ?raw)) xs g"
    by simp_all
  have up: "s + ?raw \<le> align_up 4 (s + ?raw)"
    by (rule align_up_ge) simp
  have ng: "align_up 4 (s + ?raw) \<le> g"
    by (rule sect_walk_le[OF rest])
  have raw: "?raw < 4096"
    using up ng Cons.prems(3) by linarith
  note eq = size_at_raw[OF raw]
  have inb: "s + 4 \<le> length (bytes m)"
    using r4 re ve by linarith
  have lt: "base m + of_nat s < base m + of_nat lim"
  proof -
    have "s < lim" using r4 up ng Cons.prems(2) by linarith
    moreover have "unat (base m) + s < 2 ^ 64" "unat (base m) + lim < 2 ^ 64"
      using fits ve inb by simp_all
    ultimately show ?thesis by (simp only: at_less)
  qed
  have nx: "align4_ptr (base m + of_nat s
              + ucast (get_size (bytes m ! s) (bytes m ! (s + 1)) (bytes m ! (s + 2))))
            = base m + of_nat (align_up 4 (s + ?raw))"
  proof -
    have "base m + of_nat s
              + ucast (get_size (bytes m ! s) (bytes m ! (s + 1)) (bytes m ! (s + 2)))
            = base m + of_nat (s + size_at (bytes m) s)"
      by (simp add: size_at_def ac_simps)
    then have e: "base m + of_nat s
              + ucast (get_size (bytes m ! s) (bytes m ! (s + 1)) (bytes m ! (s + 2)))
            = base m + of_nat (s + ?raw)"
      by (simp only: eq)
    have "unat (base m) + (s + ?raw) + 3 < 2 ^ 64"
      using fits re ve by simp
    from align4_at[OF this al] show ?thesis
      by (simp only: e)
  qed
  have "sect_loop m (base m + of_nat lim) (base m + of_nat s) t
      = sect_loop m (base m + of_nat lim) (base m + of_nat (align_up 4 (s + ?raw)))
          (t @ [EvSectHdr (base m + of_nat s)])"
    by (subst sect_loop.simps)
      (simp only: lt sect_type_at[OF fits inb] sect_size_at[OF fits inb] ty nx if_True if_False
        sum.case not_False_eq_True)
  also have "\<dots> = sect_loop m (base m + of_nat lim) (base m + of_nat g)
      ((t @ [EvSectHdr (base m + of_nat s)]) @ map (\<lambda>x. EvSectHdr (base m + of_nat x)) xs)"
  proof (rule Cons.IH[OF rest Cons.prems(2)])
    show "g < align_up 4 (s + ?raw) + 4096"
      using up Cons.prems(3) by linarith
  qed
  finally show ?case using x by simp
qed

text \<open>
  At a TE section the scan ends: with the entry point when the TE header starts with
  \<open>VZ\<close>, with the sentinel otherwise.
\<close>

lemma te_section_reached:
  assumes fits: "unat (base m) + length (bytes m) \<le> 2 ^ 63"
    and lim: "s < lim" "lim \<le> length (bytes m) + 2 ^ 16"
    and inb: "s + 16 \<le> length (bytes m)"
    and ty: "bytes m ! (s + 3) = SECTION_TE"
  shows "sect_loop m (base m + of_nat lim) (base m + of_nat s) t
     = Some (t @ [EvSectHdr (base m + of_nat s), EvTeHdr (base m + of_nat (s + 4))],
             if le16 (bytes m ! (s + 4)) (bytes m ! (s + 5)) = TE_SIGNATURE
             then Inr (le32 (bytes m ! (s + 12)) (bytes m ! (s + 13)) (bytes m ! (s + 14))
                            (bytes m ! (s + 15)))
             else Inr EFI_INVALID_ENTRY_POINT)"
proof -
  have lt: "base m + of_nat s < base m + of_nat lim"
  proof -
    have "unat (base m) + s < 2 ^ 64" "unat (base m) + lim < 2 ^ 64"
      using fits lim inb by simp_all
    then show ?thesis using lim(1) by (simp only: at_less)
  qed
  have i4: "s + 4 \<le> length (bytes m)" and i2: "(s + 4) + 2 \<le> length (bytes m)"
    and i12: "(s + 4) + 12 \<le> length (bytes m)"
    using inb by simp_all
  have te: "base m + of_nat s + sizeof_sect_hdr = base m + of_nat (s + 4)"
    by (simp add: sizeof_sect_hdr_def)
  have sg: "te_sign m (base m + of_nat (s + 4))
      = Inr (le16 (bytes m ! (s + 4)) (bytes m ! (s + 5)))"
    using te_sign_at[OF fits i2] by (simp add: ac_simps)
  have ep: "te_entry_point m (base m + of_nat (s + 4))
      = Inr (le32 (bytes m ! (s + 12)) (bytes m ! (s + 13)) (bytes m ! (s + 14))
                  (bytes m ! (s + 15)))"
    using te_entry_point_at[OF fits i12] by (simp add: ac_simps)
  show ?thesis
  proof (cases "le16 (bytes m ! (s + 4)) (bytes m ! (s + 5)) = TE_SIGNATURE")
    case True
    show ?thesis
      by (subst sect_loop.simps)
        (simp only: lt sect_type_at[OF fits i4] ty te sg ep check_te_sign_def True if_True
          if_False sum.case not_True_eq_False simp_thms)
  next
    case False
    show ?thesis
      by (subst sect_loop.simps)
        (simp only: lt sect_type_at[OF fits i4] ty te sg ep check_te_sign_def False if_True
          if_False sum.case not_False_eq_True simp_thms)
  qed
qed

lemma decode_fv_hdr_take:
  assumes "sizeof_fv_hdr \<le> length data"
  shows "decode_fv_hdr (take sizeof_fv_hdr data) = decode_fv_hdr data"
  using assms
  by (simp add: decode_fv_hdr_def sizeof_fv_hdr_def RESET_VECTOR_SIZE_def le64_def drop_take
      min_def)

lemma hdr_len_less: "unat (h :: u16) < 2 ^ 16"
  using unsigned_less [of h, where 'a = nat] by simp

text \<open>
  From a Security-Core file whose sections are laid out up to a TE section that starts
  below the end bound of the section scan, the scan decodes these section headers and the
  TE header.
\<close>

lemma sec_file_found:
  assumes fits: "unat (base m) + length (bytes m) \<le> 2 ^ 63"
    and al: "8 dvd unat (base m)"
    and lim: "lim \<le> length (bytes m) + 2 ^ 16"
    and fil: "f < lim" "f + 24 \<le> length (bytes m)" "bytes m ! (f + 18) = SECURITY_CORE"
    and walk: "sect_walk (bytes m) fend (align_up 4 (f + 24)) scs s"
    and fend: "fend \<le> length (bytes m)"
    and reach: "s < f + 24 + size_at (bytes m) (f + 20)"
    and te: "s + 16 \<le> length (bytes m)" "bytes m ! (s + 3) = SECTION_TE"
  shows "file_loop m (base m + of_nat lim) (base m + of_nat f) t
     = Some (t @ [EvFileHdr (base m + of_nat f)]
               @ map (\<lambda>x. EvSectHdr (base m + of_nat x)) scs
               @ [EvSectHdr (base m + of_nat s), EvTeHdr (base m + of_nat (s + 4))],
             if le16 (bytes m ! (s + 4)) (bytes m ! (s + 5)) = TE_SIGNATURE
             then Inr (le32 (bytes m ! (s + 12)) (bytes m ! (s + 13)) (bytes m ! (s + 14))
                            (bytes m ! (s + 15)))
             else Inr EFI_INVALID_ENTRY_POINT)"
proof -
  let ?sz = "size_at (bytes m) (f + 20)"
  let ?t1 = "t @ [EvFileHdr (base m + of_nat f)]"
  have a4: "4 dvd unat (base m)"
    using al by (rule dvd_trans[rotated]) simp
  have s4: "?sz < 4096"
    by (rule size_at_less)
  have lim2: "f + 24 + ?sz \<le> length (bytes m) + 2 ^ 16"
    using fil s4 by simp
  have "file_loop m (base m + of_nat lim) (base m + of_nat f) t
      = sect_loop m (base m + of_nat (f + 24 + ?sz))
          (base m + of_nat (align_up 4 (f + 24))) ?t1"
    by (rule file_loop_sec[OF fits al lim fil])
  also have "\<dots> = sect_loop m (base m + of_nat (f + 24 + ?sz)) (base m + of_nat s)
                      (?t1 @ map (\<lambda>x. EvSectHdr (base m + of_nat x)) scs)"
  proof (rule sect_walk_loop[OF fits a4 fend lim2 walk])
    show "s \<le> f + 24 + ?sz" using reach by simp
    have "f + 24 \<le> align_up 4 (f + 24)"
      by (rule align_up_ge) simp
    then show "s < align_up 4 (f + 24) + 4096" using reach s4 by linarith
  qed
  also have "\<dots> = Some ((?t1 @ map (\<lambda>x. EvSectHdr (base m + of_nat x)) scs)
               @ [EvSectHdr (base m + of_nat s), EvTeHdr (base m + of_nat (s + 4))],
             if le16 (bytes m ! (s + 4)) (bytes m ! (s + 5)) = TE_SIGNATURE
             then Inr (le32 (bytes m ! (s + 12)) (bytes m ! (s + 13)) (bytes m ! (s + 14))
                            (bytes m ! (s + 15)))
             else Inr EFI_INVALID_ENTRY_POINT)"
    by (rule te_section_reached[OF fits reach lim2 te])
  finally show ?thesis by simp
qed

text \<open>
  The scan of a laid-out volume in which the TE section starts below the end bound of the
  section scan: the file headers up to the Security-Core file, its section headers up to
  the TE section and the TE header are decoded.
\<close>

lemma layout_scan:
  assumes fits: "unat (base m) + length (bytes m) \<le> 2 ^ 63"
    and al: "8 dvd unat (base m)"
    and lay: "vol_layout 4096 (bytes m) (unat (hdr_len fv)) (unat (fv_len fv)) fls f scs s"
    and reach: "s < f + 24 + size_at (bytes m) (f + 20)"
  shows "get_entry_point m fv t
     = Some (t @ map (\<lambda>x. EvFileHdr (base m + of_nat x)) (fls @ [f])
               @ map (\<lambda>x. EvSectHdr (base m + of_nat x)) (scs @ [s])
               @ [EvTeHdr (base m + of_nat (s + 4))],
             if le16 (bytes m ! (s + 4)) (bytes m ! (s + 5)) = TE_SIGNATURE
             then Inr (le32 (bytes m ! (s + 12)) (bytes m ! (s + 13)) (bytes m ! (s + 14))
                            (bytes m ! (s + 15)))
             else Inr EFI_INVALID_ENTRY_POINT)"
proof -
  let ?hl = "unat (hdr_len fv)"
  let ?fl = "unat (fv_len fv)"
  let ?raw = "raw_size_at (bytes m) (f + 20)"
  from lay have fl: "?fl \<le> length (bytes m)"
    and fw: "file_walk 4096 (bytes m) ?fl (align_up 8 ?hl) fls f"
    and fil: "24 \<le> ?raw" "f + ?raw \<le> ?fl" "bytes m ! (f + 18) = SECURITY_CORE"
    and sw: "sect_walk (bytes m) (f + ?raw) (align_up 4 (f + 24)) scs s"
    and te: "36 \<le> raw_size_at (bytes m) s" "s + raw_size_at (bytes m) s \<le> f + ?raw"
      "bytes m ! (s + 3) = SECTION_TE"
    by (simp_all add: vol_layout_def)
  have hl: "?hl < 2 ^ 16" by (rule hdr_len_less)
  have lim: "?hl + ?fl \<le> length (bytes m) + 2 ^ 16"
    using hl fl by simp
  have e: "base m + ucast (hdr_len fv) + fv_len fv = base m + of_nat (?hl + ?fl)"
    by simp
  have st: "align8_ptr (base m + ucast (hdr_len fv)) = base m + of_nat (align_up 8 ?hl)"
  proof -
    have "unat (base m) + ?hl + 7 < 2 ^ 64"
      using fits hl by simp
    from align8_at[OF this al] show ?thesis by simp
  qed
  have "get_entry_point m fv t
      = file_loop m (base m + of_nat (?hl + ?fl)) (base m + of_nat (align_up 8 ?hl)) t"
    by (simp only: get_entry_point_def e st)
  also have "\<dots> = file_loop m (base m + of_nat (?hl + ?fl)) (base m + of_nat f)
                      (t @ map (\<lambda>x. EvFileHdr (base m + of_nat x)) fls)"
    by (rule file_walk_loop[OF fits al fl _ lim fw]) simp
  also have "\<dots> = Some ((t @ map (\<lambda>x. EvFileHdr (base m + of_nat x)) fls)
               @ [EvFileHdr (base m + of_nat f)]
               @ map (\<lambda>x. EvSectHdr (base m + of_nat x)) scs
               @ [EvSectHdr (base m + of_nat s), EvTeHdr (base m + of_nat (s + 4))],
             if le16 (bytes m ! (s + 4)) (bytes m ! (s + 5)) = TE_SIGNATURE
             then Inr (le32 (bytes m ! (s + 12)) (bytes m ! (s + 13)) (bytes m ! (s + 14))
                            (bytes m ! (s + 15)))
             else Inr EFI_INVALID_ENTRY_POINT)"
  proof (rule sec_file_found[OF fits al lim _ _ fil(3) sw _ reach _ te(3)])
    show "f < ?hl + ?fl" using fil by linarith
    show "f + 24 \<le> length (bytes m)" using fil fl by linarith
    show "f + ?raw \<le> length (bytes m)" using fil fl by linarith
    show "s + 16 \<le> length (bytes m)" using te fil fl by linarith
  qed
  finally show ?thesis by simp
qed

text \<open>
  Claim C1, amended. For every well-formed image with a valid volume header whose volume
  holds a Security-Core file with a TE section that starts with \<open>VZ\<close>
  (\<open>wf_volume 4096\<close>: the first Security-Core file of the volume, the first TE section of
  that file), in which every file before the Security-Core file is smaller than 4096 bytes
  and the TE section starts less than 24 bytes plus the size of the Security-Core file
  modulo 4096 after the start of that file, read in full into a buffer that
  \<^verbatim>\<open>g_malloc\<close> aligned to 8 bytes in the lower half of the address space, the probe
  returns the four bytes at offset 8 of the TE header, read little-endian: the
  \<open>entry_point\<close> field, unchanged. The run decodes the file headers up to the
  Security-Core file, its section headers up to the TE section and the TE header, then
  calls the ROM sink. The sizes of the Security-Core file, of the TE section and of the
  sections before it are not bounded by 4096, and a Security-Core file smaller than 4096
  bytes meets the condition on the TE section by being well formed.
\<close>

theorem probe_returns_entry_point:
  assumes op: "fs w path = Some data"
    and r1: "sys_read (read1 w) data sizeof_fv_hdr = (int sizeof_fv_hdr, hdr)"
    and r2: "sys_read (read2 w) data (length data) = (int (length data), data)"
    and al: "8 dvd unat (heap w)"
    and fits: "unat (heap w) + length data \<le> 2 ^ 63"
    and wf: "wf_volume 4096 data fls f scs s"
    and reach: "s < f + 24 + raw_size_at data (f + 20) mod 4096"
  shows "efi_probe_firmware w (Some path)
           = Some ([EvOpen path, EvSeekSet, EvRead sizeof_fv_hdr, EvSeekEnd,
                    EvMalloc (length data), EvSeekSet, EvRead (length data)]
                   @ map (\<lambda>x. EvFileHdr (heap w + of_nat x)) (fls @ [f])
                   @ map (\<lambda>x. EvSectHdr (heap w + of_nat x)) (scs @ [s])
                   @ [EvTeHdr (heap w + of_nat (s + 4)),
                      EvRomAddBlobFixed ''uefi'' data (length data) 0, EvFree, EvClose],
                   Inr (le32 (data ! (s + 12)) (data ! (s + 13)) (data ! (s + 14))
                             (data ! (s + 15))))"
proof -
  let ?m = "\<lparr>base = heap w, bytes = data\<rparr>"
  let ?fv = "decode_fv_hdr data"
  let ?t0 = "[EvMalloc (length data), EvSeekSet, EvRead (length data)]"
  let ?ep = "le32 (data ! (s + 12)) (data ! (s + 13)) (data ! (s + 14)) (data ! (s + 15))"
  from wf have len: "sizeof_fv_hdr \<le> length data"
    and sg: "[data ! 40, data ! 41, data ! 42, data ! 43] = [0x5f, 0x46, 0x56, 0x48]"
    and rv0: "take RESET_VECTOR_SIZE data = replicate RESET_VECTOR_SIZE 0"
    and lay: "vol_layout 4096 data (unat (hdr_len ?fv)) (unat (fv_len ?fv)) fls f scs s"
    and vz: "data ! (s + 4) = 0x56" "data ! (s + 5) = 0x5a"
    by (simp_all add: wf_volume_def)
  have rv: "\<forall>j<16. data ! j = 0"
  proof (intro allI impI)
    fix j :: nat assume j: "j < 16"
    then have "data ! j = take RESET_VECTOR_SIZE data ! j"
      by (simp add: RESET_VECTOR_SIZE_def)
    also have "\<dots> = 0"
      unfolding rv0 using j by (simp add: RESET_VECTOR_SIZE_def)
    finally show "data ! j = 0" .
  qed
  have hdr: "hdr = take sizeof_fv_hdr data"
    using sys_read_count[OF r1] by simp
  have fv: "decode_fv_hdr hdr = ?fv"
    unfolding hdr by (rule decode_fv_hdr_take[OF len])
  have s1: "sign ?fv = FV_SIGNATURE"
    using sg by (simp only: sign_is_FV_SIGNATURE)
  have s2: "reset_vector_empty (reset_vector ?fv)"
    using rv by (simp only: reset_vector_of_hdr)
  have ne: "length data \<noteq> 0"
    using len by (auto simp add: sizeof_fv_hdr_def)
  have te: "le16 (data ! (s + 4)) (data ! (s + 5)) = TE_SIGNATURE"
    by (simp only: vz TE_SIGNATURE_def)
  have "get_entry_point ?m ?fv ?t0
      = Some (?t0 @ map (\<lambda>x. EvFileHdr (base ?m + of_nat x)) (fls @ [f])
               @ map (\<lambda>x. EvSectHdr (base ?m + of_nat x)) (scs @ [s])
               @ [EvTeHdr (base ?m + of_nat (s + 4))],
             if le16 (bytes ?m ! (s + 4)) (bytes ?m ! (s + 5)) = TE_SIGNATURE
             then Inr (le32 (bytes ?m ! (s + 12)) (bytes ?m ! (s + 13)) (bytes ?m ! (s + 14))
                            (bytes ?m ! (s + 15)))
             else Inr EFI_INVALID_ENTRY_POINT)"
  proof (rule layout_scan)
    show "unat (base ?m) + length (bytes ?m) \<le> 2 ^ 63" using fits by simp
    show "8 dvd unat (base ?m)" using al by simp
    show "vol_layout 4096 (bytes ?m) (unat (hdr_len ?fv)) (unat (fv_len ?fv)) fls f scs s"
      using lay by simp
    show "s < f + 24 + size_at (bytes ?m) (f + 20)"
      using reach by (simp add: size_at_mod)
  qed
  then have g: "get_entry_point ?m ?fv ?t0
      = Some (?t0 @ map (\<lambda>x. EvFileHdr (heap w + of_nat x)) (fls @ [f])
               @ map (\<lambda>x. EvSectHdr (heap w + of_nat x)) (scs @ [s])
               @ [EvTeHdr (heap w + of_nat (s + 4))], Inr ?ep)"
    using te by simp
  have l: "load_firmware w data (length data) ?fv
      = Some (?t0 @ map (\<lambda>x. EvFileHdr (heap w + of_nat x)) (fls @ [f])
               @ map (\<lambda>x. EvSectHdr (heap w + of_nat x)) (scs @ [s])
               @ [EvTeHdr (heap w + of_nat (s + 4)),
                  EvRomAddBlobFixed ''uefi'' data (length data) 0, EvFree], Inr ?ep)"
    using ne r2 g by (simp add: load_firmware_def)
  show ?thesis
    using op r1 fv s1 s2 l by (simp add: efi_probe_firmware_def)
qed

lemma big_sec_len: "length big_sec_image = 4220"
  by (simp add: big_sec_image_def sample_fv_hdr_def sample_te_hdr_def)

lemma big_sec_hdr: "take 56 big_sec_image = sample_fv_hdr 0x7c 0x10"
  by (simp add: big_sec_image_def sample_fv_hdr_def)

lemma big_sec_bytes:
  "big_sec_image ! 74 = 0x03" "big_sec_image ! 76 = 0x44" "big_sec_image ! 77 = 0x10"
  "big_sec_image ! 78 = 0"
  "big_sec_image ! 80 = 0x2c" "big_sec_image ! 81 = 0x10" "big_sec_image ! 82 = 0"
  "big_sec_image ! 83 = 0x12" "big_sec_image ! 84 = 0x56" "big_sec_image ! 85 = 0x5a"
  "big_sec_image ! 92 = 0x78" "big_sec_image ! 93 = 0x56" "big_sec_image ! 94 = 0x34"
  "big_sec_image ! 95 = 0x12"
  by (simp_all add: big_sec_image_def sample_fv_hdr_def sample_te_hdr_def nth_append)

lemma big_sec_sig:
  "big_sec_image ! 40 = 0x5f" "big_sec_image ! 41 = 0x46" "big_sec_image ! 42 = 0x56"
  "big_sec_image ! 43 = 0x48"
  by (simp_all add: big_sec_image_def sample_fv_hdr_def nth_append)

lemma big_sec_fv:
  "hdr_len (decode_fv_hdr big_sec_image) = 56"
  "fv_len (decode_fv_hdr big_sec_image) = 4220"
proof -
  have "decode_fv_hdr big_sec_image = decode_fv_hdr (sample_fv_hdr 0x7c 0x10)"
    using decode_fv_hdr_take[of big_sec_image]
    by (simp add: big_sec_len big_sec_hdr sizeof_fv_hdr_def)
  moreover have "hdr_len (decode_fv_hdr (sample_fv_hdr 0x7c 0x10)) = 56"
    by code_simp
  moreover have "fv_len (decode_fv_hdr (sample_fv_hdr 0x7c 0x10)) = 4220"
    by code_simp
  ultimately show "hdr_len (decode_fv_hdr big_sec_image) = 56"
    "fv_len (decode_fv_hdr big_sec_image) = 4220"
    by simp_all
qed

lemma big_sec_sizes:
  "raw_size_at big_sec_image 76 = 4164" "raw_size_at big_sec_image 80 = 4140"
  by (simp_all add: raw_size_at_def le24_def big_sec_bytes)

lemma big_sec_layout: "vol_layout 4096 big_sec_image 56 4220 [] 56 [] 80"
  unfolding vol_layout_def
  by (simp add: big_sec_len big_sec_sizes big_sec_bytes align_up_def SECURITY_CORE_def
      SECTION_TE_def)

lemma big_sec_wf: "wf_volume 4096 big_sec_image [] 56 [] 80"
proof -
  have rv: "take RESET_VECTOR_SIZE big_sec_image = replicate RESET_VECTOR_SIZE 0"
    by (simp add: big_sec_image_def sample_fv_hdr_def RESET_VECTOR_SIZE_def
        replicate_add[symmetric])
  show ?thesis
    unfolding wf_volume_def
    using big_sec_layout
    by (simp add: rv big_sec_len big_sec_sig big_sec_fv big_sec_bytes sizeof_fv_hdr_def)
qed

theorem probe_returns_entry_point_witness:
  "wf_volume 4096 (sample_image 0x78 0x56 0x34 0x12) [56] 88 [112] 120
   \<and> (120 :: nat) < 88 + 24 + raw_size_at (sample_image 0x78 0x56 0x34 0x12) (88 + 20) mod 4096
   \<and> efi_probe_firmware (sample_env (sample_image 0x78 0x56 0x34 0x12)) (Some ''fw.fd'')
     = Some ([EvOpen ''fw.fd'', EvSeekSet, EvRead 56, EvSeekEnd, EvMalloc 164, EvSeekSet,
              EvRead 164, EvFileHdr (0x7f0000001000 + 56), EvFileHdr (0x7f0000001000 + 88),
              EvSectHdr (0x7f0000001000 + 112), EvSectHdr (0x7f0000001000 + 120),
              EvTeHdr (0x7f0000001000 + 124),
              EvRomAddBlobFixed ''uefi'' (sample_image 0x78 0x56 0x34 0x12) 164 0, EvFree,
              EvClose],
             Inr 0x12345678)
   \<and> wf_volume 4096 small_image [] 56 [] 80
   \<and> raw_size_at small_image 80 = 36
   \<and> (80 :: nat) < 56 + 24 + raw_size_at small_image (56 + 20) mod 4096
   \<and> efi_probe_firmware (sample_env small_image) (Some ''fw.fd'')
     = Some ([EvOpen ''fw.fd'', EvSeekSet, EvRead 56, EvSeekEnd, EvMalloc 116, EvSeekSet,
              EvRead 116, EvFileHdr (0x7f0000001000 + 56), EvSectHdr (0x7f0000001000 + 80),
              EvTeHdr (0x7f0000001000 + 84),
              EvRomAddBlobFixed ''uefi'' small_image 116 0, EvFree, EvClose],
             Inr 0x12345678)
   \<and> wf_volume 4096 big_sec_image [] 56 [] 80
   \<and> raw_size_at big_sec_image (56 + 20) = 4164
   \<and> raw_size_at big_sec_image 80 = 4140
   \<and> (80 :: nat) < 56 + 24 + raw_size_at big_sec_image (56 + 20) mod 4096
   \<and> efi_probe_firmware (sample_env big_sec_image) (Some ''fw.fd'')
     = Some ([EvOpen ''fw.fd'', EvSeekSet, EvRead 56, EvSeekEnd, EvMalloc 4220, EvSeekSet,
              EvRead 4220, EvFileHdr (0x7f0000001000 + 56), EvSectHdr (0x7f0000001000 + 80),
              EvTeHdr (0x7f0000001000 + 84),
              EvRomAddBlobFixed ''uefi'' big_sec_image 4220 0, EvFree, EvClose],
             Inr 0x12345678)"
proof -
  let ?d = "sample_image 0x78 0x56 0x34 0x12"
  let ?w = "sample_env ?d"
  have len: "length ?d = 164" by code_simp
  have op: "fs ?w ''fw.fd'' = Some ?d"
    by (simp add: sample_env_def)
  have r1: "sys_read (read1 ?w) ?d sizeof_fv_hdr = (int sizeof_fv_hdr, take 56 ?d)"
    by code_simp
  have r2: "sys_read (read2 ?w) ?d (length ?d) = (int (length ?d), ?d)"
    by (simp add: sample_env_def)
  have al: "8 dvd unat (heap ?w)"
    by (simp add: sample_env_def)
  have fits: "unat (heap ?w) + length ?d \<le> 2 ^ 63"
    by (simp add: sample_env_def len)
  have wf: "wf_volume 4096 ?d [56] 88 [112] 120"
    by code_simp
  have raw: "raw_size_at ?d 108 = 76"
    by code_simp
  have reach: "(120 :: nat) < 88 + 24 + raw_size_at ?d (88 + 20) mod 4096"
    by (simp add: raw)
  have hp: "heap ?w = 0x7f0000001000"
    by (simp add: sample_env_def)
  have ep: "le32 (?d ! 132) (?d ! 133) (?d ! 134) (?d ! 135) = 0x12345678"
    by code_simp
  have run: "efi_probe_firmware ?w (Some ''fw.fd'')
     = Some ([EvOpen ''fw.fd'', EvSeekSet, EvRead 56, EvSeekEnd, EvMalloc 164, EvSeekSet,
              EvRead 164, EvFileHdr (0x7f0000001000 + 56), EvFileHdr (0x7f0000001000 + 88),
              EvSectHdr (0x7f0000001000 + 112), EvSectHdr (0x7f0000001000 + 120),
              EvTeHdr (0x7f0000001000 + 124),
              EvRomAddBlobFixed ''uefi'' ?d 164 0, EvFree, EvClose],
             Inr 0x12345678)"
    using probe_returns_entry_point[OF op r1 r2 al fits wf reach]
    by (simp add: len hp ep sizeof_fv_hdr_def)
  let ?c = "small_image"
  let ?u = "sample_env ?c"
  have clen: "length ?c = 116" by code_simp
  have cop: "fs ?u ''fw.fd'' = Some ?c"
    by (simp add: sample_env_def)
  have cr1: "sys_read (read1 ?u) ?c sizeof_fv_hdr = (int sizeof_fv_hdr, take 56 ?c)"
    by code_simp
  have cr2: "sys_read (read2 ?u) ?c (length ?c) = (int (length ?c), ?c)"
    by (simp add: sample_env_def)
  have cal: "8 dvd unat (heap ?u)"
    by (simp add: sample_env_def)
  have cfits: "unat (heap ?u) + length ?c \<le> 2 ^ 63"
    by (simp add: sample_env_def clen)
  have cwf: "wf_volume 4096 ?c [] 56 [] 80"
    by code_simp
  have craw: "raw_size_at ?c 76 = 60" "raw_size_at ?c 80 = 36"
    by code_simp+
  have creach: "(80 :: nat) < 56 + 24 + raw_size_at ?c (56 + 20) mod 4096"
    by (simp add: craw)
  have chp: "heap ?u = 0x7f0000001000"
    by (simp add: sample_env_def)
  have cep: "le32 (?c ! 92) (?c ! 93) (?c ! 94) (?c ! 95) = 0x12345678"
    by code_simp
  have crun: "efi_probe_firmware ?u (Some ''fw.fd'')
     = Some ([EvOpen ''fw.fd'', EvSeekSet, EvRead 56, EvSeekEnd, EvMalloc 116, EvSeekSet,
              EvRead 116, EvFileHdr (0x7f0000001000 + 56), EvSectHdr (0x7f0000001000 + 80),
              EvTeHdr (0x7f0000001000 + 84),
              EvRomAddBlobFixed ''uefi'' ?c 116 0, EvFree, EvClose],
             Inr 0x12345678)"
    using probe_returns_entry_point[OF cop cr1 cr2 cal cfits cwf creach]
    by (simp add: clen chp cep sizeof_fv_hdr_def)
  let ?b = "big_sec_image"
  let ?v = "sample_env ?b"
  have bop: "fs ?v ''fw.fd'' = Some ?b"
    by (simp add: sample_env_def)
  have br1: "sys_read (read1 ?v) ?b sizeof_fv_hdr = (int sizeof_fv_hdr, take 56 ?b)"
    by (simp add: sample_env_def sizeof_fv_hdr_def big_sec_len)
  have br2: "sys_read (read2 ?v) ?b (length ?b) = (int (length ?b), ?b)"
    by (simp add: sample_env_def)
  have bal: "8 dvd unat (heap ?v)"
    by (simp add: sample_env_def)
  have bfits: "unat (heap ?v) + length ?b \<le> 2 ^ 63"
    by (simp add: sample_env_def big_sec_len)
  have breach: "(80 :: nat) < 56 + 24 + raw_size_at ?b (56 + 20) mod 4096"
    by (simp add: big_sec_sizes)
  have bhp: "heap ?v = 0x7f0000001000"
    by (simp add: sample_env_def)
  have bep: "le32 (?b ! 92) (?b ! 93) (?b ! 94) (?b ! 95) = 0x12345678"
    by (simp add: big_sec_bytes le32_def)
  have brun: "efi_probe_firmware ?v (Some ''fw.fd'')
     = Some ([EvOpen ''fw.fd'', EvSeekSet, EvRead 56, EvSeekEnd, EvMalloc 4220, EvSeekSet,
              EvRead 4220, EvFileHdr (0x7f0000001000 + 56), EvSectHdr (0x7f0000001000 + 80),
              EvTeHdr (0x7f0000001000 + 84),
              EvRomAddBlobFixed ''uefi'' ?b 4220 0, EvFree, EvClose],
             Inr 0x12345678)"
    using probe_returns_entry_point[OF bop br1 br2 bal bfits big_sec_wf breach]
    by (simp add: big_sec_len bhp bep sizeof_fv_hdr_def)
  have bs: "raw_size_at ?b (56 + 20) = 4164" "raw_size_at ?b 80 = 4140"
    by (simp_all add: big_sec_sizes)
  show ?thesis
    using wf reach run cwf craw(2) creach crun big_sec_wf bs breach brun by (intro conjI)
qed

text \<open>
  How a run of the scan shows in a run of the probe, when the header is valid and both
  reads are complete.
\<close>

lemma probe_run:
  assumes len: "sizeof_fv_hdr \<le> length data"
    and sg: "[data ! 40, data ! 41, data ! 42, data ! 43] = [0x5f, 0x46, 0x56, 0x48]"
    and rv: "\<forall>j<16. data ! j = 0"
    and scan: "get_entry_point \<lparr>base = 0x7f0000001000, bytes = data\<rparr> (decode_fv_hdr data)
                 [EvMalloc (length data), EvSeekSet, EvRead (length data)] = Some (tr, r)"
  shows "efi_probe_firmware (sample_env data) (Some ''fw.fd'')
     = Some ([EvOpen ''fw.fd'', EvSeekSet, EvRead 56, EvSeekEnd] @ tr
             @ (case r of Inl x \<Rightarrow> []
                | Inr e \<Rightarrow> [EvRomAddBlobFixed ''uefi'' data (length data) 0, EvFree, EvClose]),
             r)"
proof -
  let ?fv = "decode_fv_hdr data"
  have fv: "decode_fv_hdr (take 56 data) = ?fv"
    using decode_fv_hdr_take[OF len] by (simp add: sizeof_fv_hdr_def)
  have s1: "sign ?fv = FV_SIGNATURE"
    using sg by (simp only: sign_is_FV_SIGNATURE)
  have s2: "reset_vector_empty (reset_vector ?fv)"
    using rv by (simp only: reset_vector_of_hdr)
  have ne: "length data \<noteq> 0" and l56: "min (length data) 56 = 56"
    using len by (auto simp add: sizeof_fv_hdr_def)
  have l: "load_firmware (sample_env data) data (length data) ?fv
      = Some (tr @ (case r of Inl x \<Rightarrow> []
                    | Inr e \<Rightarrow> [EvRomAddBlobFixed ''uefi'' data (length data) 0, EvFree]), r)"
    using ne scan by (cases r) (simp_all add: load_firmware_def sample_env_def)
  show ?thesis
    using l by (cases r)
      (simp_all add: efi_probe_firmware_def sample_env_def sizeof_fv_hdr_def l56 fv s1 s2)
qed

lemma large_len: "length large_file_image = 4252"
  by (simp add: large_file_image_def sample_fv_hdr_def sample_file_hdr_def sample_te_hdr_def)

lemma large_hdr: "take 56 large_file_image = sample_fv_hdr 0x9c 0x10"
  by (simp add: large_file_image_def sample_fv_hdr_def)

lemma large_bytes:
  "large_file_image ! 74 = 0x02" "large_file_image ! 76 = 0x20" "large_file_image ! 77 = 0x10"
  "large_file_image ! 78 = 0"
  "large_file_image ! 106 = 0x03" "large_file_image ! 108 = 68" "large_file_image ! 109 = 0"
  "large_file_image ! 110 = 0"
  "large_file_image ! 112 = 44" "large_file_image ! 113 = 0" "large_file_image ! 114 = 0"
  "large_file_image ! 115 = 0x12" "large_file_image ! 116 = 0x56" "large_file_image ! 117 = 0x5a"
  "large_file_image ! 124 = 0xef" "large_file_image ! 125 = 0xbe" "large_file_image ! 126 = 0xad"
  "large_file_image ! 127 = 0xde"
  by (simp_all add: large_file_image_def sample_fv_hdr_def sample_file_hdr_def sample_te_hdr_def
      nth_append)

lemma large_bytes2:
  "large_file_image ! 4202 = 0x03" "large_file_image ! 4204 = 68" "large_file_image ! 4205 = 0"
  "large_file_image ! 4206 = 0"
  "large_file_image ! 4208 = 44" "large_file_image ! 4209 = 0" "large_file_image ! 4210 = 0"
  "large_file_image ! 4211 = 0x12" "large_file_image ! 4212 = 0x56" "large_file_image ! 4213 = 0x5a"
  "large_file_image ! 4220 = 0x78" "large_file_image ! 4221 = 0x56" "large_file_image ! 4222 = 0x34"
  "large_file_image ! 4223 = 0x12"
  by (simp_all add: large_file_image_def sample_fv_hdr_def sample_file_hdr_def sample_te_hdr_def
      nth_append)

lemma large_sig:
  "large_file_image ! 40 = 0x5f" "large_file_image ! 41 = 0x46" "large_file_image ! 42 = 0x56"
  "large_file_image ! 43 = 0x48"
  by (simp_all add: large_file_image_def sample_fv_hdr_def nth_append)

lemma large_rv: "\<forall>j<16. large_file_image ! j = 0"
  by (simp add: large_file_image_def sample_fv_hdr_def nth_append)

lemma large_fv:
  "hdr_len (decode_fv_hdr large_file_image) = 56"
  "fv_len (decode_fv_hdr large_file_image) = 4252"
proof -
  have "decode_fv_hdr large_file_image = decode_fv_hdr (sample_fv_hdr 0x9c 0x10)"
    using decode_fv_hdr_take[of large_file_image]
    by (simp add: large_len large_hdr sizeof_fv_hdr_def)
  moreover have "hdr_len (decode_fv_hdr (sample_fv_hdr 0x9c 0x10)) = 56"
    by code_simp
  moreover have "fv_len (decode_fv_hdr (sample_fv_hdr 0x9c 0x10)) = 4252"
    by code_simp
  ultimately show "hdr_len (decode_fv_hdr large_file_image) = 56"
    "fv_len (decode_fv_hdr large_file_image) = 4252"
    by simp_all
qed

lemma large_sizes:
  "raw_size_at large_file_image 76 = 4128" "size_at large_file_image 76 = 32"
  "size_at large_file_image 108 = 68" "size_at large_file_image 112 = 44"
  "raw_size_at large_file_image 4204 = 68" "raw_size_at large_file_image 4208 = 44"
  by (simp_all add: raw_size_at_def le24_def size_at_def get_size_def large_bytes large_bytes2)

lemma large_wf: "wf_volume (2 ^ 24) large_file_image [56] 4184 [] 4208"
proof -
  have rv: "take RESET_VECTOR_SIZE large_file_image = replicate RESET_VECTOR_SIZE 0"
    by (simp add: large_file_image_def sample_fv_hdr_def RESET_VECTOR_SIZE_def
        replicate_add[symmetric])
  show ?thesis
    unfolding wf_volume_def vol_layout_def
    by (simp add: rv large_len large_sig large_fv large_sizes large_bytes large_bytes2
        sizeof_fv_hdr_def align_up_def SECURITY_CORE_def SECTION_TE_def)
qed

lemma large_scan:
  "get_entry_point \<lparr>base = 0x7f0000001000, bytes = large_file_image\<rparr>
     (decode_fv_hdr large_file_image) t
   = Some (t @ [EvFileHdr (0x7f0000001000 + 56), EvFileHdr (0x7f0000001000 + 88),
                EvSectHdr (0x7f0000001000 + 112), EvTeHdr (0x7f0000001000 + 116)],
           Inr 0xdeadbeef)"
proof -
  let ?m = "\<lparr>base = 0x7f0000001000, bytes = large_file_image\<rparr>"
  have fits: "unat (base ?m) + length (bytes ?m) \<le> 2 ^ 63"
    by (simp add: large_len)
  have al: "8 dvd unat (base ?m)" by simp
  have lim: "(4308 :: nat) \<le> length (bytes ?m) + 2 ^ 16"
    by (simp add: large_len)
  have st: "align8_ptr 0x7f0000001038 = 0x7f0000001038"
    by (simp add: align8_ptr_def)
  have "get_entry_point ?m (decode_fv_hdr large_file_image) t
      = file_loop ?m (base ?m + of_nat 4308) (base ?m + of_nat 56) t"
    by (simp add: get_entry_point_def large_fv st)
  also have "\<dots> = file_loop ?m (base ?m + of_nat 4308)
      (base ?m + of_nat (align_up 8 (56 + size_at (bytes ?m) (56 + 20))))
      (t @ [EvFileHdr (base ?m + of_nat 56)])"
    by (rule file_loop_step[OF fits al lim])
      (simp_all add: large_len large_bytes SECURITY_CORE_def)
  also have "\<dots> = file_loop ?m (base ?m + of_nat 4308) (base ?m + of_nat 88)
      (t @ [EvFileHdr (base ?m + of_nat 56)])"
    by (simp add: large_sizes align_up_def)
  also have "\<dots> = Some ((t @ [EvFileHdr (base ?m + of_nat 56)])
               @ [EvFileHdr (base ?m + of_nat 88)]
               @ map (\<lambda>x. EvSectHdr (base ?m + of_nat x)) []
               @ [EvSectHdr (base ?m + of_nat 112), EvTeHdr (base ?m + of_nat (112 + 4))],
             if le16 (bytes ?m ! (112 + 4)) (bytes ?m ! (112 + 5)) = TE_SIGNATURE
             then Inr (le32 (bytes ?m ! (112 + 12)) (bytes ?m ! (112 + 13))
                            (bytes ?m ! (112 + 14)) (bytes ?m ! (112 + 15)))
             else Inr EFI_INVALID_ENTRY_POINT)"
    by (rule sec_file_found[OF fits al lim, where fend = 156])
      (simp_all add: large_len large_sizes large_bytes align_up_def SECURITY_CORE_def
        SECTION_TE_def)
  also have "\<dots> = Some (t @ [EvFileHdr (0x7f0000001000 + 56), EvFileHdr (0x7f0000001000 + 88),
                EvSectHdr (0x7f0000001000 + 112), EvTeHdr (0x7f0000001000 + 116)],
           Inr 0xdeadbeef)"
    by (simp add: large_bytes le32_def TE_SIGNATURE_def)
  finally show ?thesis .
qed

lemma large_sec_len: "length large_sec_image = 4152"
  by (simp add: large_sec_image_def sample_fv_hdr_def sample_te_hdr_def)

lemma large_sec_hdr: "take 56 large_sec_image = sample_fv_hdr 0x38 0x10"
  by (simp add: large_sec_image_def sample_fv_hdr_def)

lemma large_sec_bytes:
  "large_sec_image ! 74 = 0x03" "large_sec_image ! 76 = 0" "large_sec_image ! 77 = 0x10"
  "large_sec_image ! 78 = 0"
  "large_sec_image ! 80 = 0xe8" "large_sec_image ! 81 = 0x0f" "large_sec_image ! 82 = 0"
  "large_sec_image ! 83 = 0x12" "large_sec_image ! 84 = 0x56" "large_sec_image ! 85 = 0x5a"
  "large_sec_image ! 92 = 0x78" "large_sec_image ! 93 = 0x56" "large_sec_image ! 94 = 0x34"
  "large_sec_image ! 95 = 0x12"
  by (simp_all add: large_sec_image_def sample_fv_hdr_def sample_te_hdr_def nth_append)

lemma large_sec_sig:
  "large_sec_image ! 40 = 0x5f" "large_sec_image ! 41 = 0x46" "large_sec_image ! 42 = 0x56"
  "large_sec_image ! 43 = 0x48"
  by (simp_all add: large_sec_image_def sample_fv_hdr_def nth_append)

lemma large_sec_rv: "\<forall>j<16. large_sec_image ! j = 0"
  by (simp add: large_sec_image_def sample_fv_hdr_def nth_append)

lemma large_sec_fv:
  "hdr_len (decode_fv_hdr large_sec_image) = 56"
  "fv_len (decode_fv_hdr large_sec_image) = 4152"
proof -
  have "decode_fv_hdr large_sec_image = decode_fv_hdr (sample_fv_hdr 0x38 0x10)"
    using decode_fv_hdr_take[of large_sec_image]
    by (simp add: large_sec_len large_sec_hdr sizeof_fv_hdr_def)
  moreover have "hdr_len (decode_fv_hdr (sample_fv_hdr 0x38 0x10)) = 56"
    by code_simp
  moreover have "fv_len (decode_fv_hdr (sample_fv_hdr 0x38 0x10)) = 4152"
    by code_simp
  ultimately show "hdr_len (decode_fv_hdr large_sec_image) = 56"
    "fv_len (decode_fv_hdr large_sec_image) = 4152"
    by simp_all
qed

lemma large_sec_sizes:
  "raw_size_at large_sec_image 76 = 4096" "size_at large_sec_image 76 = 0"
  "raw_size_at large_sec_image 80 = 4072"
  by (simp_all add: raw_size_at_def le24_def size_at_def get_size_def large_sec_bytes)

lemma large_sec_wf: "wf_volume (2 ^ 24) large_sec_image [] 56 [] 80"
proof -
  have rv: "take RESET_VECTOR_SIZE large_sec_image = replicate RESET_VECTOR_SIZE 0"
    by (simp add: large_sec_image_def sample_fv_hdr_def RESET_VECTOR_SIZE_def
        replicate_add[symmetric])
  show ?thesis
    unfolding wf_volume_def vol_layout_def
    by (simp add: rv large_sec_len large_sec_sig large_sec_fv large_sec_sizes large_sec_bytes
        sizeof_fv_hdr_def align_up_def SECURITY_CORE_def SECTION_TE_def)
qed

lemma large_sec_scan:
  "get_entry_point \<lparr>base = 0x7f0000001000, bytes = large_sec_image\<rparr>
     (decode_fv_hdr large_sec_image) t
   = Some (t @ [EvFileHdr (0x7f0000001000 + 56)], Inr 0xffffffff)"
proof -
  let ?m = "\<lparr>base = 0x7f0000001000, bytes = large_sec_image\<rparr>"
  have fits: "unat (base ?m) + length (bytes ?m) \<le> 2 ^ 63"
    by (simp add: large_sec_len)
  have al: "8 dvd unat (base ?m)" by simp
  have lim: "(4208 :: nat) \<le> length (bytes ?m) + 2 ^ 16"
    by (simp add: large_sec_len)
  have st: "align8_ptr 0x7f0000001038 = 0x7f0000001038"
    by (simp add: align8_ptr_def)
  have "get_entry_point ?m (decode_fv_hdr large_sec_image) t
      = file_loop ?m (base ?m + of_nat 4208) (base ?m + of_nat 56) t"
    by (simp add: get_entry_point_def large_sec_fv st)
  also have "\<dots> = sect_loop ?m (base ?m + of_nat (56 + 24 + size_at (bytes ?m) (56 + 20)))
      (base ?m + of_nat (align_up 4 (56 + 24))) (t @ [EvFileHdr (base ?m + of_nat 56)])"
    by (rule file_loop_sec[OF fits al lim])
      (simp_all add: large_sec_len large_sec_bytes SECURITY_CORE_def)
  also have "\<dots> = sect_loop ?m (base ?m + of_nat 80) (base ?m + of_nat 80)
      (t @ [EvFileHdr (base ?m + of_nat 56)])"
    by (simp add: large_sec_sizes align_up_def)
  also have "\<dots> = Some (t @ [EvFileHdr (0x7f0000001000 + 56)], Inr 0xffffffff)"
    by (subst sect_loop.simps) (simp add: EFI_INVALID_ENTRY_POINT_def)
  finally show ?thesis .
qed

text \<open>
  Against claim C1 as stated, two well-formed images with one Security-Core file whose
  TE section has \<open>entry_point = 0x12345678\<close>. In \<open>large_file_image\<close> (Security-Core
  file at offset 4184, TE section at 4208) the first file is 4128 bytes long; the size
  decoder keeps 12 bits of the size, 32, so the scan goes on at offset 88, inside that
  file, reads the bytes there as a Security-Core file and returns \<open>0xDEADBEEF\<close> from
  them. In \<open>large_sec_image\<close> the Security-Core file at offset 56 is 4096 bytes long;
  the size decoder makes 0 of it, the section scan ends at offset 80 where it starts, and
  the probe returns the sentinel without decoding the TE section at offset 80.
\<close>

theorem masked_size_loses_entry_point:
  "wf_volume (2 ^ 24) large_file_image [56] 4184 [] 4208
   \<and> le32 (large_file_image ! (4208 + 12)) (large_file_image ! (4208 + 13))
          (large_file_image ! (4208 + 14)) (large_file_image ! (4208 + 15)) = 0x12345678
   \<and> efi_probe_firmware (sample_env large_file_image) (Some ''fw.fd'')
     = Some ([EvOpen ''fw.fd'', EvSeekSet, EvRead 56, EvSeekEnd, EvMalloc 4252, EvSeekSet,
              EvRead 4252, EvFileHdr (0x7f0000001000 + 56), EvFileHdr (0x7f0000001000 + 88),
              EvSectHdr (0x7f0000001000 + 112), EvTeHdr (0x7f0000001000 + 116),
              EvRomAddBlobFixed ''uefi'' large_file_image 4252 0, EvFree, EvClose],
             Inr 0xdeadbeef)
   \<and> wf_volume (2 ^ 24) large_sec_image [] 56 [] 80
   \<and> le32 (large_sec_image ! (80 + 12)) (large_sec_image ! (80 + 13))
          (large_sec_image ! (80 + 14)) (large_sec_image ! (80 + 15)) = 0x12345678
   \<and> efi_probe_firmware (sample_env large_sec_image) (Some ''fw.fd'')
     = Some ([EvOpen ''fw.fd'', EvSeekSet, EvRead 56, EvSeekEnd, EvMalloc 4152, EvSeekSet,
              EvRead 4152, EvFileHdr (0x7f0000001000 + 56),
              EvRomAddBlobFixed ''uefi'' large_sec_image 4152 0, EvFree, EvClose],
             Inr 0xffffffff)"
proof (intro conjI)
  show "wf_volume (2 ^ 24) large_file_image [56] 4184 [] 4208"
    by (rule large_wf)
  show "le32 (large_file_image ! (4208 + 12)) (large_file_image ! (4208 + 13))
          (large_file_image ! (4208 + 14)) (large_file_image ! (4208 + 15)) = 0x12345678"
    by (simp add: large_bytes2 le32_def)
  have "sizeof_fv_hdr \<le> length large_file_image"
    by (simp add: large_len sizeof_fv_hdr_def)
  from probe_run[OF this _ large_rv large_scan]
  show "efi_probe_firmware (sample_env large_file_image) (Some ''fw.fd'')
     = Some ([EvOpen ''fw.fd'', EvSeekSet, EvRead 56, EvSeekEnd, EvMalloc 4252, EvSeekSet,
              EvRead 4252, EvFileHdr (0x7f0000001000 + 56), EvFileHdr (0x7f0000001000 + 88),
              EvSectHdr (0x7f0000001000 + 112), EvTeHdr (0x7f0000001000 + 116),
              EvRomAddBlobFixed ''uefi'' large_file_image 4252 0, EvFree, EvClose],
             Inr 0xdeadbeef)"
    by (simp add: large_sig large_len)
  show "wf_volume (2 ^ 24) large_sec_image [] 56 [] 80"
    by (rule large_sec_wf)
  show "le32 (large_sec_image ! (80 + 12)) (large_sec_image ! (80 + 13))
          (large_sec_image ! (80 + 14)) (large_sec_image ! (80 + 15)) = 0x12345678"
    by (simp add: large_sec_bytes le32_def)
  have "sizeof_fv_hdr \<le> length large_sec_image"
    by (simp add: large_sec_len sizeof_fv_hdr_def)
  from probe_run[OF this _ large_sec_rv large_sec_scan]
  show "efi_probe_firmware (sample_env large_sec_image) (Some ''fw.fd'')
     = Some ([EvOpen ''fw.fd'', EvSeekSet, EvRead 56, EvSeekEnd, EvMalloc 4152, EvSeekSet,
              EvRead 4152, EvFileHdr (0x7f0000001000 + 56),
              EvRomAddBlobFixed ''uefi'' large_sec_image 4152 0, EvFree, EvClose],
             Inr 0xffffffff)"
    by (simp add: large_sec_sig large_sec_len)
qed

subsection \<open>A volume without a Security-Core file\<close>

lemma file_walk_end: "file_walk cap bs vend f xs g \<Longrightarrow> g = f \<or> g \<le> vend + 7"
proof (induction xs arbitrary: f)
  case Nil
  then show ?case by simp
next
  case (Cons x xs)
  let ?n = "align_up 8 (f + raw_size_at bs (f + 20))"
  from Cons.prems have e: "f + raw_size_at bs (f + 20) \<le> vend"
    and rest: "file_walk cap bs vend ?n xs g"
    by simp_all
  have "?n \<le> vend + 7"
    using align_up_le[of 8 "f + raw_size_at bs (f + 20)"] e by simp
  with Cons.IH[OF rest] show ?case by auto
qed

text \<open>
  A buffer that is exactly one volume (\<open>fv_len\<close> is its length) whose files, each
  smaller than 4096 bytes and none of them a Security-Core file, fill it up to less than
  19 bytes before its end: after the last file the scan is at an offset \<open>g\<close> below its
  end bound \<open>hdr_len + fv_len\<close>, and reads the type of a file header at offset
  \<open>g + 18\<close>, outside the buffer.
\<close>

lemma filled_volume_scan:
  assumes fits: "unat (base m) + length (bytes m) \<le> 2 ^ 63"
    and al: "8 dvd unat (base m)"
    and vl: "unat (fv_len fv) = length (bytes m)"
    and hl: "8 \<le> unat (hdr_len fv)" "unat (hdr_len fv) \<le> length (bytes m)"
    and fw: "file_walk 4096 (bytes m) (length (bytes m)) (align_up 8 (unat (hdr_len fv))) fls g"
    and full: "length (bytes m) \<le> g + 18"
  shows "get_entry_point m fv t
     = Some (t @ map (\<lambda>x. EvFileHdr (base m + of_nat x)) (fls @ [g]),
             Inl (OutOfBounds (base m + of_nat (g + 18))))"
proof -
  let ?hl = "unat (hdr_len fv)"
  let ?L = "length (bytes m)"
  let ?t1 = "t @ map (\<lambda>x. EvFileHdr (base m + of_nat x)) fls"
  have lim: "?hl + ?L \<le> ?L + 2 ^ 16"
    using hdr_len_less[of "hdr_len fv"] by simp
  have "fv_len fv = of_nat (unat (fv_len fv))"
    by simp
  then have e: "base m + ucast (hdr_len fv) + fv_len fv = base m + of_nat (?hl + ?L)"
    by (simp only: vl) simp
  have st: "align8_ptr (base m + ucast (hdr_len fv)) = base m + of_nat (align_up 8 ?hl)"
  proof -
    have "unat (base m) + ?hl + 7 < 2 ^ 64"
      using fits hl by simp
    from align8_at[OF this al] show ?thesis by simp
  qed
  have gle: "g \<le> ?L + 7"
    using file_walk_end[OF fw] align_up_le[of 8 ?hl] hl by auto
  have lt: "base m + of_nat g < base m + of_nat (?hl + ?L)"
  proof -
    have "g < ?hl + ?L" using gle hl by linarith
    moreover have "unat (base m) + g < 2 ^ 64" "unat (base m) + (?hl + ?L) < 2 ^ 64"
      using fits gle hdr_len_less[of "hdr_len fv"] by simp_all
    ultimately show ?thesis by (simp only: at_less)
  qed
  have ty: "file_type m (base m + of_nat g) = Inl (OutOfBounds (base m + of_nat (g + 18)))"
  proof -
    define k where "k = g + 18"
    have a: "base m + of_nat g + 18 = base m + of_nat k"
      by (simp add: k_def)
    have "k < 2 ^ 64"
      using fits gle by (simp add: k_def)
    then have "unat (of_nat k :: addr) = k"
      by (simp add: unat_of_nat take_bit_nat_eq_self)
    then have "\<not> unat (base m + of_nat k - base m) < ?L"
      using full by (simp add: k_def)
    then have "file_type m (base m + of_nat g) = Inl (OutOfBounds (base m + of_nat k))"
      by (simp only: file_type_def rd8_def a if_False)
    then show ?thesis
      by (simp only: k_def)
  qed
  have "get_entry_point m fv t
      = file_loop m (base m + of_nat (?hl + ?L)) (base m + of_nat (align_up 8 ?hl)) t"
    by (simp only: get_entry_point_def e st)
  also have "\<dots> = file_loop m (base m + of_nat (?hl + ?L)) (base m + of_nat g) ?t1"
    by (rule file_walk_loop[OF fits al _ _ lim fw]) simp_all
  also have "\<dots> = Some (?t1 @ [EvFileHdr (base m + of_nat g)],
                          Inl (OutOfBounds (base m + of_nat (g + 18))))"
    by (subst file_loop.simps) (simp only: lt ty if_True sum.case)
  finally show ?thesis by simp
qed

text \<open>
  Claim C5 (the code differs). \<open>no_sec_image\<close> is a file of 80 bytes that is exactly one
  well-formed volume: valid header, \<open>hdr_len = 56\<close>, \<open>fv_len = 80\<close>, and one file, of
  type 2 and 24 bytes, from offset 56 to the end of the volume at offset 80. Both reads
  succeed. The end bound of the file scan is \<^verbatim>\<open>blob + hdr_len + fv_len\<close>, offset 136,
  although \<open>fv_len\<close> counts the header: after the only file the scan is at offset 80,
  below that bound, and reads the type of a file header at offset 98, past the end of the
  buffer. The run does not come to return the sentinel, and the ROM sink is not called.
  The lemma before shows the same of every such volume whose files fill it.
\<close>

theorem no_security_core_file_reads_past_buffer:
  "efi_probe_firmware (sample_env no_sec_image) (Some ''fw.fd'')
     = Some ([EvOpen ''fw.fd'', EvSeekSet, EvRead 56, EvSeekEnd, EvMalloc 80, EvSeekSet,
              EvRead 80, EvFileHdr (0x7f0000001000 + 56), EvFileHdr (0x7f0000001000 + 80)],
             Inl (OutOfBounds (0x7f0000001000 + 98)))
   \<and> rom_calls [EvOpen ''fw.fd'', EvSeekSet, EvRead 56, EvSeekEnd, EvMalloc 80, EvSeekSet,
              EvRead 80, EvFileHdr (0x7f0000001000 + 56), EvFileHdr (0x7f0000001000 + 80)] = []
   \<and> length no_sec_image = 80
   \<and> hdr_len (decode_fv_hdr no_sec_image) = 56
   \<and> fv_len (decode_fv_hdr no_sec_image) = 80
   \<and> file_walk 4096 no_sec_image 80 56 [56] 80
   \<and> 0x7f0000001000 + ucast (hdr_len (decode_fv_hdr no_sec_image))
        + fv_len (decode_fv_hdr no_sec_image) = (0x7f0000001000 + 136 :: addr)"
  by code_simp

subsection \<open>Header reads and the bounds of the buffer\<close>

lemma astray_len: "length astray_image = 4276"
  by (simp add: astray_image_def sample_fv_hdr_def sample_file_hdr_def sample_te_hdr_def)

lemma astray_hdr: "take 56 astray_image = sample_fv_hdr 0xb4 0x10"
  by (simp add: astray_image_def sample_fv_hdr_def)

lemma astray_bytes:
  "astray_image ! 74 = 0x02" "astray_image ! 76 = 0x40" "astray_image ! 77 = 0x10"
  "astray_image ! 78 = 0"
  "astray_image ! 138 = 0x02" "astray_image ! 140 = 0xc8" "astray_image ! 141 = 0x0f"
  "astray_image ! 142 = 0"
  by (simp_all add: astray_image_def sample_fv_hdr_def sample_file_hdr_def sample_te_hdr_def
      nth_append)

lemma astray_bytes2:
  "astray_image ! 4178 = 0x02" "astray_image ! 4180 = 104" "astray_image ! 4181 = 0"
  "astray_image ! 4182 = 0"
  "astray_image ! 4234 = 0x03" "astray_image ! 4236 = 60" "astray_image ! 4237 = 0"
  "astray_image ! 4238 = 0"
  "astray_image ! 4240 = 36" "astray_image ! 4241 = 0" "astray_image ! 4242 = 0"
  "astray_image ! 4243 = 0x12"
  by (simp_all add: astray_image_def sample_fv_hdr_def sample_file_hdr_def sample_te_hdr_def
      nth_append)

lemma astray_fv:
  "hdr_len (decode_fv_hdr astray_image) = 56"
  "fv_len (decode_fv_hdr astray_image) = 4276"
proof -
  have "decode_fv_hdr astray_image = decode_fv_hdr (sample_fv_hdr 0xb4 0x10)"
    using decode_fv_hdr_take[of astray_image]
    by (simp add: astray_len astray_hdr sizeof_fv_hdr_def)
  moreover have "hdr_len (decode_fv_hdr (sample_fv_hdr 0xb4 0x10)) = 56"
    by code_simp
  moreover have "fv_len (decode_fv_hdr (sample_fv_hdr 0xb4 0x10)) = 4276"
    by code_simp
  ultimately show "hdr_len (decode_fv_hdr astray_image) = 56"
    "fv_len (decode_fv_hdr astray_image) = 4276"
    by simp_all
qed

lemma astray_sig:
  "astray_image ! 40 = 0x5f" "astray_image ! 41 = 0x46" "astray_image ! 42 = 0x56"
  "astray_image ! 43 = 0x48"
  by (simp_all add: astray_image_def sample_fv_hdr_def nth_append)

lemma astray_rv: "\<forall>j<16. astray_image ! j = 0"
  by (simp add: astray_image_def sample_fv_hdr_def nth_append)

lemma astray_sizes:
  "raw_size_at astray_image 76 = 4160" "size_at astray_image 76 = 64"
  "size_at astray_image 140 = 4040" "size_at astray_image 4180 = 104"
  "raw_size_at astray_image 4236 = 60" "raw_size_at astray_image 4240 = 36"
  by (simp_all add: raw_size_at_def le24_def size_at_def get_size_def astray_bytes astray_bytes2)

lemma astray_layout: "vol_layout (2 ^ 24) astray_image 56 4276 [56] 4216 [] 4240"
  unfolding vol_layout_def
  by (simp add: astray_len astray_sizes astray_bytes astray_bytes2 align_up_def
      SECURITY_CORE_def SECTION_TE_def)

lemma astray_scan:
  "get_entry_point \<lparr>base = 0x7f0000001000, bytes = astray_image\<rparr>
     (decode_fv_hdr astray_image) t
   = Some (t @ [EvFileHdr (0x7f0000001000 + 56), EvFileHdr (0x7f0000001000 + 120),
                EvFileHdr (0x7f0000001000 + 4160), EvFileHdr (0x7f0000001000 + 4264)],
           Inl (OutOfBounds (0x7f0000001000 + 4282)))"
proof -
  let ?m = "\<lparr>base = 0x7f0000001000, bytes = astray_image\<rparr>"
  let ?e = "base ?m + of_nat 4332"
  have fits: "unat (base ?m) + length (bytes ?m) \<le> 2 ^ 63"
    by (simp add: astray_len)
  have al: "8 dvd unat (base ?m)" by simp
  have lim: "(4332 :: nat) \<le> length (bytes ?m) + 2 ^ 16"
    by (simp add: astray_len)
  have st: "align8_ptr 0x7f0000001038 = 0x7f0000001038"
    by (simp add: align8_ptr_def)
  have "get_entry_point ?m (decode_fv_hdr astray_image) t
      = file_loop ?m ?e (base ?m + of_nat 56) t"
    by (simp add: get_entry_point_def astray_fv st)
  also have "\<dots> = file_loop ?m ?e
      (base ?m + of_nat (align_up 8 (56 + size_at (bytes ?m) (56 + 20))))
      (t @ [EvFileHdr (base ?m + of_nat 56)])"
    by (rule file_loop_step[OF fits al lim])
      (simp_all add: astray_len astray_bytes SECURITY_CORE_def)
  also have "\<dots> = file_loop ?m ?e (base ?m + of_nat 120)
      (t @ [EvFileHdr (base ?m + of_nat 56)])"
    by (simp add: astray_sizes align_up_def)
  also have "\<dots> = file_loop ?m ?e
      (base ?m + of_nat (align_up 8 (120 + size_at (bytes ?m) (120 + 20))))
      ((t @ [EvFileHdr (base ?m + of_nat 56)]) @ [EvFileHdr (base ?m + of_nat 120)])"
    by (rule file_loop_step[OF fits al lim])
      (simp_all add: astray_len astray_bytes SECURITY_CORE_def)
  also have "\<dots> = file_loop ?m ?e (base ?m + of_nat 4160)
      (t @ [EvFileHdr (base ?m + of_nat 56), EvFileHdr (base ?m + of_nat 120)])"
    by (simp add: astray_sizes align_up_def)
  also have "\<dots> = file_loop ?m ?e
      (base ?m + of_nat (align_up 8 (4160 + size_at (bytes ?m) (4160 + 20))))
      ((t @ [EvFileHdr (base ?m + of_nat 56), EvFileHdr (base ?m + of_nat 120)])
       @ [EvFileHdr (base ?m + of_nat 4160)])"
    by (rule file_loop_step[OF fits al lim])
      (simp_all add: astray_len astray_bytes2 SECURITY_CORE_def)
  also have "\<dots> = file_loop ?m ?e (base ?m + of_nat 4264)
      (t @ [EvFileHdr (base ?m + of_nat 56), EvFileHdr (base ?m + of_nat 120),
            EvFileHdr (base ?m + of_nat 4160)])"
    by (simp add: astray_sizes align_up_def)
  also have "\<dots> = Some (t @ [EvFileHdr (0x7f0000001000 + 56), EvFileHdr (0x7f0000001000 + 120),
                EvFileHdr (0x7f0000001000 + 4160), EvFileHdr (0x7f0000001000 + 4264)],
           Inl (OutOfBounds (0x7f0000001000 + 4282)))"
    by (subst file_loop.simps) (simp add: file_type_def rd8_def astray_len)
  finally show ?thesis .
qed

text \<open>
  Against claim C6 as stated, four runs that end in a read past the end of the buffer; in
  none of them is the position compared with the length of the buffer. On the file cut
  off after 80 bytes, whose header declares a volume of 200 bytes, the scan steps over
  the file entry at offset 56 to offset 80, which is below its end bound, and reads the
  type of a file header at offset 98. The other three files are exactly one well-formed
  volume. On the volume that is only a header the file scan starts at offset 56, the end
  of the volume, and reads at offset 74. On the volume whose Security-Core file has no TE
  section the section scan goes on at offset 88, the end of the file and of the volume,
  and reads the type of a section header at offset 91. On \<open>astray_image\<close>, whose
  Security-Core file and TE section are at offsets 4216 and 4240, the first file is 4160
  bytes long; its size is decoded as 64 and the scan goes on inside that file, at offsets
  120 and 4160, from where it comes to offset 4264, 12 bytes before the end of the
  volume, and reads the type of a file header at offset 4282.
\<close>

theorem header_read_past_buffer:
  "efi_probe_firmware (sample_env truncated_image) (Some ''fw.fd'')
     = Some ([EvOpen ''fw.fd'', EvSeekSet, EvRead 56, EvSeekEnd, EvMalloc 80, EvSeekSet,
              EvRead 80, EvFileHdr (0x7f0000001000 + 56), EvFileHdr (0x7f0000001000 + 80)],
             Inl (OutOfBounds (0x7f0000001000 + 98)))
   \<and> length truncated_image = 80
   \<and> efi_probe_firmware (sample_env header_only_image) (Some ''fw.fd'')
     = Some ([EvOpen ''fw.fd'', EvSeekSet, EvRead 56, EvSeekEnd, EvMalloc 56, EvSeekSet,
              EvRead 56, EvFileHdr (0x7f0000001000 + 56)],
             Inl (OutOfBounds (0x7f0000001000 + 74)))
   \<and> length header_only_image = 56
   \<and> efi_probe_firmware (sample_env no_te_image) (Some ''fw.fd'')
     = Some ([EvOpen ''fw.fd'', EvSeekSet, EvRead 56, EvSeekEnd, EvMalloc 88, EvSeekSet,
              EvRead 88, EvFileHdr (0x7f0000001000 + 56), EvSectHdr (0x7f0000001000 + 80),
              EvSectHdr (0x7f0000001000 + 88)],
             Inl (OutOfBounds (0x7f0000001000 + 91)))
   \<and> length no_te_image = 88
   \<and> vol_layout (2 ^ 24) astray_image 56 4276 [56] 4216 [] 4240
   \<and> efi_probe_firmware (sample_env astray_image) (Some ''fw.fd'')
     = Some ([EvOpen ''fw.fd'', EvSeekSet, EvRead 56, EvSeekEnd, EvMalloc 4276, EvSeekSet,
              EvRead 4276, EvFileHdr (0x7f0000001000 + 56), EvFileHdr (0x7f0000001000 + 120),
              EvFileHdr (0x7f0000001000 + 4160), EvFileHdr (0x7f0000001000 + 4264)],
             Inl (OutOfBounds (0x7f0000001000 + 4282)))
   \<and> length astray_image = 4276"
proof (intro conjI)
  show "efi_probe_firmware (sample_env truncated_image) (Some ''fw.fd'')
     = Some ([EvOpen ''fw.fd'', EvSeekSet, EvRead 56, EvSeekEnd, EvMalloc 80, EvSeekSet,
              EvRead 80, EvFileHdr (0x7f0000001000 + 56), EvFileHdr (0x7f0000001000 + 80)],
             Inl (OutOfBounds (0x7f0000001000 + 98)))"
    by code_simp
  show "length truncated_image = 80"
    by code_simp
  show "efi_probe_firmware (sample_env header_only_image) (Some ''fw.fd'')
     = Some ([EvOpen ''fw.fd'', EvSeekSet, EvRead 56, EvSeekEnd, EvMalloc 56, EvSeekSet,
              EvRead 56, EvFileHdr (0x7f0000001000 + 56)],
             Inl (OutOfBounds (0x7f0000001000 + 74)))"
    by code_simp
  show "length header_only_image = 56"
    by code_simp
  show "efi_probe_firmware (sample_env no_te_image) (Some ''fw.fd'')
     = Some ([EvOpen ''fw.fd'', EvSeekSet, EvRead 56, EvSeekEnd, EvMalloc 88, EvSeekSet,
              EvRead 88, EvFileHdr (0x7f0000001000 + 56), EvSectHdr (0x7f0000001000 + 80),
              EvSectHdr (0x7f0000001000 + 88)],
             Inl (OutOfBounds (0x7f0000001000 + 91)))"
    by code_simp
  show "length no_te_image = 88"
    by code_simp
  show "vol_layout (2 ^ 24) astray_image 56 4276 [56] 4216 [] 4240"
    by (rule astray_layout)
  have "sizeof_fv_hdr \<le> length astray_image"
    by (simp add: astray_len sizeof_fv_hdr_def)
  from probe_run[OF this _ astray_rv astray_scan]
  show "efi_probe_firmware (sample_env astray_image) (Some ''fw.fd'')
     = Some ([EvOpen ''fw.fd'', EvSeekSet, EvRead 56, EvSeekEnd, EvMalloc 4276, EvSeekSet,
              EvRead 4276, EvFileHdr (0x7f0000001000 + 56), EvFileHdr (0x7f0000001000 + 120),
              EvFileHdr (0x7f0000001000 + 4160), EvFileHdr (0x7f0000001000 + 4264)],
             Inl (OutOfBounds (0x7f0000001000 + 4282)))"
    by (simp add: astray_sig astray_len)
  show "length astray_image = 4276"
    by (rule astray_len)
qed

text \<open>
  A section scan whose end bound lies at least 15 bytes before the end of the buffer does
  not read outside it.
\<close>

lemma sect_loop_safe:
  assumes fits: "unat (base m) + length (bytes m) \<le> 2 ^ 63"
    and lim: "lim + 15 \<le> length (bytes m)"
    and run: "sect_loop m (base m + of_nat lim) (base m + of_nat i) t = Some r"
    and i: "i \<le> lim + 4098"
  shows "snd r \<noteq> Inl f"
proof -
  let ?e = "base m + of_nat lim"
  let ?Q = "\<lambda>p (t :: event list) (r :: outcome).
      \<forall>i. p = base m + of_nat i \<and> i \<le> lim + 4098 \<longrightarrow> (\<forall>f. snd r \<noteq> Inl f)"
  have inside: "k < lim \<and> k + 16 \<le> length (bytes m)"
    if "base m + of_nat k < ?e" "k \<le> lim + 4098" for k
  proof -
    have "k < lim"
      using that at_less_room[OF fits, of k lim] lim by simp
    then show ?thesis using lim by simp
  qed
  have "?Q (base m + of_nat i) t r"
  proof (rule sect_loop_rule[OF run, where Q = ?Q])
    fix p t
    show "?Q p t (t, Inr EFI_INVALID_ENTRY_POINT)" by simp
  next
    fix p t f
    assume lt: "p < ?e" and ty: "sect_type m p = Inl f"
    show "?Q p t (t @ [EvSectHdr p], Inl f)"
    proof (intro allI impI, elim conjE)
      fix k g assume p: "p = base m + of_nat k" and k: "k \<le> lim + 4098"
      from inside[OF lt[unfolded p] k] have "k + 4 \<le> length (bytes m)" by simp
      from sect_type_at[OF fits this] ty p show "snd (t @ [EvSectHdr p], Inl f) \<noteq> Inl g"
        by simp
    qed
  next
    fix p t ty f
    assume lt: "p < ?e" and sz: "sect_size m p = Inl f"
    show "?Q p t (t @ [EvSectHdr p], Inl f)"
    proof (intro allI impI, elim conjE)
      fix k g assume p: "p = base m + of_nat k" and k: "k \<le> lim + 4098"
      from inside[OF lt[unfolded p] k] have "k + 4 \<le> length (bytes m)" by simp
      from sect_size_at[OF fits this] sz p show "snd (t @ [EvSectHdr p], Inl f) \<noteq> Inl g"
        by simp
    qed
  next
    fix p t ty sz r
    assume lt: "p < ?e" and sz: "sect_size m p = Inr sz"
      and IH: "?Q (align4_ptr (p + ucast sz)) (t @ [EvSectHdr p]) r"
    show "?Q p t r"
    proof (intro allI impI, elim conjE)
      fix k g assume p: "p = base m + of_nat k" and k: "k \<le> lim + 4098"
      from inside[OF lt[unfolded p] k] have kl: "k < lim" "k + 4 \<le> length (bytes m)" by simp_all
      from sect_size_at[OF fits kl(2)] sz p
      have "sz = get_size (bytes m ! k) (bytes m ! (k + 1)) (bytes m ! (k + 2))" by simp
      then have s4: "unat sz < 4096" by (simp add: get_size_less)
      have e: "p + ucast sz = base m + of_nat (k + unat sz)"
        using p by simp
      have "unat (base m) + (k + unat sz) + 3 < 2 ^ 64"
        using fits kl s4 by simp
      from align4_at_gen[OF this] obtain j where
        j: "align4_ptr (p + ucast sz) = base m + of_nat j" "j \<le> k + unat sz + 3"
        unfolding e by blast
      have "j \<le> lim + 4098" using j(2) kl(1) s4 by linarith
      with IH j(1) show "snd r \<noteq> Inl g" by blast
    qed
  next
    fix p t r
    assume lt: "p < ?e"
      and r: "r = (case te_sign m (p + sizeof_sect_hdr) of
               Inl f \<Rightarrow> Inl f
             | Inr s \<Rightarrow> if \<not> check_te_sign s then Inr EFI_INVALID_ENTRY_POINT
                        else te_entry_point m (p + sizeof_sect_hdr))"
    show "?Q p t (t @ [EvSectHdr p, EvTeHdr (p + sizeof_sect_hdr)], r)"
    proof (intro allI impI, elim conjE)
      fix k g assume p: "p = base m + of_nat k" and k: "k \<le> lim + 4098"
      from inside[OF lt[unfolded p] k] have kl: "k + 16 \<le> length (bytes m)" by simp
      have te: "p + sizeof_sect_hdr = base m + of_nat (k + 4)"
        using p by (simp add: sizeof_sect_hdr_def)
      have "(k + 4) + 2 \<le> length (bytes m)" "(k + 4) + 12 \<le> length (bytes m)"
        using kl by simp_all
      from te_sign_at[OF fits this(1)] te_entry_point_at[OF fits this(2)]
      have "\<forall>g. r \<noteq> Inl g"
        unfolding r te by simp
      then show "snd (t @ [EvSectHdr p, EvTeHdr (p + sizeof_sect_hdr)], r) \<noteq> Inl g"
        by simp
    qed
  qed
  then show ?thesis using i by blast
qed

text \<open>
  A Security-Core file of 4096 bytes or more: the end bound of its section scan, 24 bytes
  plus the size modulo 4096 after its start, lies more than 15 bytes before its end.
\<close>

lemma large_sec_file_safe:
  assumes fits: "unat (base m) + length (bytes m) \<le> 2 ^ 63"
    and al: "8 dvd unat (base m)"
    and fil: "f + raw_size_at (bytes m) (f + 20) \<le> length (bytes m)"
      "4096 \<le> raw_size_at (bytes m) (f + 20)"
    and run: "sect_loop m (base m + of_nat (f + 24 + size_at (bytes m) (f + 20)))
                (base m + of_nat (align_up 4 (f + 24))) t = Some r"
  shows "snd r \<noteq> Inl x"
proof -
  let ?raw = "raw_size_at (bytes m) (f + 20)"
  let ?sz = "size_at (bytes m) (f + 20)"
  have "?raw = ?raw div 4096 * 4096 + ?raw mod 4096"
    by simp
  moreover have "1 \<le> ?raw div 4096"
    using fil(2) by (simp add: Suc_le_eq div_greater_zero_iff)
  ultimately have "4096 + ?raw mod 4096 \<le> ?raw"
    by (metis add_le_mono1 mult_le_mono1 nat_mult_1)
  then have room: "f + 24 + ?sz + 15 \<le> length (bytes m)"
    using fil(1) by (simp add: size_at_mod)
  show ?thesis
  proof (rule sect_loop_safe[OF fits room run])
    show "align_up 4 (f + 24) \<le> f + 24 + ?sz + 4098"
      using align_up_le[of 4 "f + 24"] by simp
  qed
qed

text \<open>
  Claim C6, amended. Take a buffer, aligned to 8 bytes in the lower half of the address
  space, that holds a well-formed volume with a Security-Core file that has a TE section
  (\<open>vol_layout 4096\<close>, with the \<open>hdr_len\<close> and \<open>fv_len\<close> of the volume header): the
  volume lies in the buffer, and every file before the first Security-Core file is
  smaller than 4096 bytes. Then every header read of the file scan and of the section
  scan (file header, section header, TE header) lies inside the buffer: no run of
  \<^verbatim>\<open>get_entry_point\<close> ends in a read out of bounds, and when the Security-Core file is
  smaller than 4096 bytes the scan returns. The sizes of the Security-Core file and of
  its sections are not bounded by 4096, and the TE header need not start with \<open>VZ\<close>.
  The scans compare positions with the end bounds they compute from header fields only,
  never with the length of the buffer, and have no result for a position outside it.
\<close>

theorem header_reads_within_buffer:
  assumes fits: "unat (base m) + length (bytes m) \<le> 2 ^ 63"
    and al: "8 dvd unat (base m)"
    and lay: "vol_layout 4096 (bytes m) (unat (hdr_len fv)) (unat (fv_len fv)) fls f scs s"
  shows "(\<forall>t' x. get_entry_point m fv t \<noteq> Some (t', Inl x))
       \<and> (raw_size_at (bytes m) (f + 20) < 4096
            \<longrightarrow> (\<exists>t' r. get_entry_point m fv t = Some (t', Inr r)))"
proof (cases "raw_size_at (bytes m) (f + 20) < 4096")
  case True
  from lay have te: "36 \<le> raw_size_at (bytes m) s"
      "s + raw_size_at (bytes m) s \<le> f + raw_size_at (bytes m) (f + 20)"
    by (simp_all add: vol_layout_def)
  have reach: "s < f + 24 + size_at (bytes m) (f + 20)"
    using te by (simp add: size_at_raw[OF True])
  note scan = layout_scan[OF fits al lay reach, of t]
  show ?thesis
  proof (cases "le16 (bytes m ! (s + 4)) (bytes m ! (s + 5)) = TE_SIGNATURE")
    case vz: True
    show ?thesis using scan vz by simp
  next
    case vz: False
    show ?thesis using scan vz by simp
  qed
next
  case False
  let ?hl = "unat (hdr_len fv)"
  let ?fl = "unat (fv_len fv)"
  let ?raw = "raw_size_at (bytes m) (f + 20)"
  let ?t1 = "t @ map (\<lambda>x. EvFileHdr (base m + of_nat x)) fls"
  from lay have fl: "?fl \<le> length (bytes m)"
    and fw: "file_walk 4096 (bytes m) ?fl (align_up 8 ?hl) fls f"
    and fil: "24 \<le> ?raw" "f + ?raw \<le> ?fl" "bytes m ! (f + 18) = SECURITY_CORE"
    by (simp_all add: vol_layout_def)
  have hl: "?hl < 2 ^ 16" by (rule hdr_len_less)
  have lim: "?hl + ?fl \<le> length (bytes m) + 2 ^ 16"
    using hl fl by simp
  have e: "base m + ucast (hdr_len fv) + fv_len fv = base m + of_nat (?hl + ?fl)"
    by simp
  have st: "align8_ptr (base m + ucast (hdr_len fv)) = base m + of_nat (align_up 8 ?hl)"
  proof -
    have "unat (base m) + ?hl + 7 < 2 ^ 64"
      using fits hl by simp
    from align8_at[OF this al] show ?thesis by simp
  qed
  have "get_entry_point m fv t
      = file_loop m (base m + of_nat (?hl + ?fl)) (base m + of_nat (align_up 8 ?hl)) t"
    by (simp only: get_entry_point_def e st)
  also have "\<dots> = file_loop m (base m + of_nat (?hl + ?fl)) (base m + of_nat f) ?t1"
    by (rule file_walk_loop[OF fits al fl _ lim fw]) simp
  also have "\<dots> = sect_loop m (base m + of_nat (f + 24 + size_at (bytes m) (f + 20)))
         (base m + of_nat (align_up 4 (f + 24))) (?t1 @ [EvFileHdr (base m + of_nat f)])"
  proof (rule file_loop_sec[OF fits al lim _ _ fil(3)])
    show "f < ?hl + ?fl" using fil by linarith
    show "f + 24 \<le> length (bytes m)" using fil fl by linarith
  qed
  finally have scan: "get_entry_point m fv t
      = sect_loop m (base m + of_nat (f + 24 + size_at (bytes m) (f + 20)))
         (base m + of_nat (align_up 4 (f + 24))) (?t1 @ [EvFileHdr (base m + of_nat f)])" .
  have "get_entry_point m fv t \<noteq> Some (t', Inl x)" for t' x
  proof
    assume "get_entry_point m fv t = Some (t', Inl x)"
    then have run: "sect_loop m (base m + of_nat (f + 24 + size_at (bytes m) (f + 20)))
         (base m + of_nat (align_up 4 (f + 24))) (?t1 @ [EvFileHdr (base m + of_nat f)])
         = Some (t', Inl x)"
      by (simp only: scan)
    have "snd (t', (Inl x :: fault + u32)) \<noteq> Inl x"
    proof (rule large_sec_file_safe[OF fits al _ _ run])
      show "f + ?raw \<le> length (bytes m)" using fil fl by linarith
      show "4096 \<le> ?raw" using False by simp
    qed
    then show False by simp
  qed
  then show ?thesis using False by simp
qed

lemma large_sec_layout: "vol_layout 4096 large_sec_image 56 4152 [] 56 [] 80"
  unfolding vol_layout_def
  by (simp add: large_sec_len large_sec_sizes large_sec_bytes align_up_def SECURITY_CORE_def
      SECTION_TE_def)

theorem header_reads_within_buffer_witness:
  "unat (base \<lparr>base = 0x7f0000001000, bytes = sample_image 0x78 0x56 0x34 0x12\<rparr>)
       + length (bytes \<lparr>base = 0x7f0000001000, bytes = sample_image 0x78 0x56 0x34 0x12\<rparr>)
     \<le> 2 ^ 63
   \<and> 8 dvd unat (base \<lparr>base = 0x7f0000001000, bytes = sample_image 0x78 0x56 0x34 0x12\<rparr>)
   \<and> vol_layout 4096 (sample_image 0x78 0x56 0x34 0x12) 56 164 [56] 88 [112] 120
   \<and> raw_size_at (sample_image 0x78 0x56 0x34 0x12) (88 + 20) < 4096
   \<and> (\<forall>t' x. get_entry_point \<lparr>base = 0x7f0000001000, bytes = sample_image 0x78 0x56 0x34 0x12\<rparr>
                 (decode_fv_hdr (sample_image 0x78 0x56 0x34 0x12)) []
               \<noteq> Some (t', Inl x))
   \<and> (\<exists>t' r. get_entry_point \<lparr>base = 0x7f0000001000, bytes = sample_image 0x78 0x56 0x34 0x12\<rparr>
                 (decode_fv_hdr (sample_image 0x78 0x56 0x34 0x12)) []
               = Some (t', Inr r))
   \<and> vol_layout 4096 large_sec_image 56 4152 [] 56 [] 80
   \<and> raw_size_at large_sec_image (56 + 20) = 4096
   \<and> (\<forall>t' x. get_entry_point \<lparr>base = 0x7f0000001000, bytes = large_sec_image\<rparr>
                 (decode_fv_hdr large_sec_image) [] \<noteq> Some (t', Inl x))"
proof -
  let ?d = "sample_image 0x78 0x56 0x34 0x12"
  let ?m = "\<lparr>base = 0x7f0000001000, bytes = ?d\<rparr>"
  let ?fv = "decode_fv_hdr ?d"
  have len: "length ?d = 164" by code_simp
  have h: "unat (hdr_len ?fv) = 56" by code_simp
  have l: "unat (fv_len ?fv) = 164" by code_simp
  have fits: "unat (base ?m) + length (bytes ?m) \<le> 2 ^ 63"
    by (simp add: len)
  have al: "8 dvd unat (base ?m)"
    by simp
  have lay: "vol_layout 4096 ?d 56 164 [56] 88 [112] 120"
    by code_simp
  have lay': "vol_layout 4096 (bytes ?m) (unat (hdr_len ?fv)) (unat (fv_len ?fv))
                [56] 88 [112] 120"
    using lay by (simp add: h l)
  have raw: "raw_size_at ?d (88 + 20) < 4096"
    by code_simp
  have one: "(\<forall>t' x. get_entry_point ?m ?fv [] \<noteq> Some (t', Inl x))
             \<and> (\<exists>t' r. get_entry_point ?m ?fv [] = Some (t', Inr r))"
    using raw header_reads_within_buffer[OF fits al lay', of "[]"] by simp
  let ?n = "\<lparr>base = 0x7f0000001000, bytes = large_sec_image\<rparr>"
  let ?gv = "decode_fv_hdr large_sec_image"
  have nfits: "unat (base ?n) + length (bytes ?n) \<le> 2 ^ 63"
    by (simp add: large_sec_len)
  have nal: "8 dvd unat (base ?n)"
    by simp
  have nlay: "vol_layout 4096 (bytes ?n) (unat (hdr_len ?gv)) (unat (fv_len ?gv)) [] 56 [] 80"
    using large_sec_layout by (simp add: large_sec_fv)
  have nraw: "raw_size_at large_sec_image (56 + 20) = 4096"
    by (simp add: large_sec_sizes)
  have two: "\<forall>t' x. get_entry_point ?n ?gv [] \<noteq> Some (t', Inl x)"
    using header_reads_within_buffer[OF nfits nal nlay, of "[]"] by simp
  show ?thesis
    using fits al lay raw one large_sec_layout nraw two by simp
qed

end
